theory Spec2Isabelle
  imports Main "HOL-Library.Word"
begin

section \<open>Go values shared by all parts\<close>

text \<open>
  A Go \<open>error\<close> value. \<open>errors.New\<close> and \<open>goerr.Errorf\<close> build an error from a message;
  the decoder of \<open>pkg/util/mapper\<close> returns a decode error listing the failed fields; the
  operating system returns errors of which \<open>os.IsNotExist\<close> singles out one kind.
\<close>

datatype error =
    errors_New string
  | DecodeError "string list"
  | OSError bool string

text \<open>\<open>os.IsNotExist(err)\<close>: the flag carried by an operating-system error.\<close>

fun os_IsNotExist :: "error \<Rightarrow> bool" where
  "os_IsNotExist (OSError notexist _) = notexist"
| "os_IsNotExist _ = False"

text \<open>
  A call either panics (a failed \<open>contract.Assert\<close>, \<open>contract.Require\<close> or
  \<open>contract.Failf\<close>), returns a non-nil \<open>error\<close>, or returns its value.
\<close>

datatype fault = Panic string | Err error

type_synonym ID = string
type_synonym float64 = "64 word"

text \<open>\<open>interface{}\<close> values as the decoders produce them (\<open>mapper.Object\<close> is the object case).\<close>

datatype jvalue =
    JNull
  | JBool bool
  | JNumber float64
  | JString string
  | JArray "jvalue list"
  | JObject "(string \<times> jvalue) list"

section \<open>Generated resource providers (\<open>lib/aws/rpc\<close>)\<close>

subsection \<open>Marshalable structures\<close>

record Authorizer =
  Name :: string
  Type :: string
  AuthorizerCredentials :: "ID option"
  AuthorizerResultTTLInSeconds :: "float64 option"
  AuthorizerURI :: "string option"
  IdentitySource :: "string option"
  IdentityValidationExpression :: "string option"
  Providers :: "ID list option"
  RestAPI :: "ID option"

record VPCGatewayAttachment =
  Name :: string
  VPC :: ID
  InternetGateway :: ID

record AlarmDimension =
  Name :: string
  Value :: jvalue

record Alarm =
  Name :: string
  ComparisonOperator :: string
  EvaluationPeriods :: float64
  MetricName :: string
  Namespace :: string
  Period :: float64
  Statistic :: string
  Threshold :: float64
  ActionsEnabled :: "bool option"
  AlarmActions :: "ID list option"
  AlarmDescription :: "string option"
  AlarmName :: "string option"
  Dimensions :: "AlarmDimension list option"
  InsufficientDataActions :: "ID list option"
  OKActions :: "ID list option"
  Unit :: "string option"

definition AuthorizerToken :: string where
  "AuthorizerToken = ''aws:apigateway/authorizer:Authorizer''"

definition AlarmToken :: string where
  "AlarmToken = ''aws:cloudwatch/alarm:Alarm''"

definition VPCGatewayAttachmentToken :: string where
  "VPCGatewayAttachmentToken = ''aws:ec2/vpcGatewayAttachment:VPCGatewayAttachment''"

definition Authorizer_Name :: string where "Authorizer_Name = ''name''"
definition Alarm_Name :: string where "Alarm_Name = ''name''"
definition VPCGatewayAttachment_Name :: string where "VPCGatewayAttachment_Name = ''name''"

subsection \<open>Requests, responses and the library the stubs call\<close>

text \<open>
  The protobuf messages of \<open>lumirpc\<close>. \<open>'s\<close> is the wire structure (\<open>pbstruct.Struct\<close>).
  \<open>Unknowns\<close> is a Go \<open>map[string]bool\<close>: reading a missing key gives \<open>false\<close>.
\<close>

record 's NameRequest =
  Type :: string
  Properties :: 's
  Unknowns :: "string \<rightharpoonup> bool"

record NameResponse =
  Name :: string

record 's InspectChangeRequest =
  Type :: string
  Id :: string
  Olds :: 's
  News :: 's

record InspectChangeResponse =
  Replaces :: "string list"

definition map_bool_index :: "(string \<rightharpoonup> bool) \<Rightarrow> string \<Rightarrow> bool" where
  "map_bool_index m k = (case m k of None \<Rightarrow> False | Some b \<Rightarrow> b)"

text \<open>
  The functions of \<open>pkg/resource\<close> and \<open>pkg/util/mapper\<close> that the stubs call are not part
  of the sources at hand; they are parameters of the model. \<open>'pm\<close> is
  \<open>resource.PropertyMap\<close>, \<open>'d\<close> is \<open>resource.ObjectDiff\<close> (\<open>Diff\<close> returns \<open>None\<close> for
  a nil diff), \<open>'obj\<close> the marshalable structure \<open>MapIU\<close> fills in.
\<close>

record ('s, 'pm, 'd, 'obj) resource_lib =
  UnmarshalProperties :: "'s \<Rightarrow> 'pm"
  MapIU :: "'pm \<Rightarrow> 'obj \<times> error option"
  Diff :: "'pm \<Rightarrow> 'pm \<Rightarrow> 'd option"
  Changed :: "'d \<Rightarrow> string \<Rightarrow> bool"

text \<open>
  The provider-specific \<open>InspectChange\<close> of the pluggable \<open>ProviderOps\<close> interface:
  it returns more replacement keys and an error.
\<close>

type_synonym ('d, 'obj) ops_InspectChange =
  "ID \<Rightarrow> 'obj \<Rightarrow> 'obj \<Rightarrow> 'd option \<Rightarrow> string list \<times> error option"

subsection \<open>\<open>Unmarshal\<close>\<close>

definition AuthorizerProvider_Unmarshal ::
  "('s, 'pm, 'd, Authorizer) resource_lib \<Rightarrow> 's \<Rightarrow> Authorizer \<times> 'pm \<times> error option" where
  "AuthorizerProvider_Unmarshal lib v =
     (let props = UnmarshalProperties lib v;
          (obj, result) = MapIU lib props
      in (obj, props, result))"

definition AlarmProvider_Unmarshal ::
  "('s, 'pm, 'd, Alarm) resource_lib \<Rightarrow> 's \<Rightarrow> Alarm \<times> 'pm \<times> error option" where
  "AlarmProvider_Unmarshal lib v =
     (let props = UnmarshalProperties lib v;
          (obj, result) = MapIU lib props
      in (obj, props, result))"

definition VPCGatewayAttachmentProvider_Unmarshal ::
  "('s, 'pm, 'd, VPCGatewayAttachment) resource_lib \<Rightarrow> 's
     \<Rightarrow> VPCGatewayAttachment \<times> 'pm \<times> error option" where
  "VPCGatewayAttachmentProvider_Unmarshal lib v =
     (let props = UnmarshalProperties lib v;
          (obj, result) = MapIU lib props
      in (obj, props, result))"

subsection \<open>\<open>Name\<close>\<close>

definition AuthorizerProvider_Name ::
  "('s, 'pm, 'd, Authorizer) resource_lib \<Rightarrow> 's NameRequest \<Rightarrow> fault + NameResponse" where
  "AuthorizerProvider_Name lib req =
     (if NameRequest.Type req \<noteq> AuthorizerToken then Inl (Panic ''assertion failure'')
      else case AuthorizerProvider_Unmarshal lib (Properties req) of
        (obj, _, Some decerr) \<Rightarrow> Inl (Err decerr)
      | (obj, _, None) \<Rightarrow>
          if Authorizer.Name obj = [] then
            if map_bool_index (Unknowns req) Authorizer_Name
            then Inl (Err (errors_New ''Name property cannot be computed from unknown outputs''))
            else Inl (Err (errors_New ''Name property cannot be empty''))
          else Inr \<lparr>NameResponse.Name = Authorizer.Name obj\<rparr>)"

definition AlarmProvider_Name ::
  "('s, 'pm, 'd, Alarm) resource_lib \<Rightarrow> 's NameRequest \<Rightarrow> fault + NameResponse" where
  "AlarmProvider_Name lib req =
     (if NameRequest.Type req \<noteq> AlarmToken then Inl (Panic ''assertion failure'')
      else case AlarmProvider_Unmarshal lib (Properties req) of
        (obj, _, Some decerr) \<Rightarrow> Inl (Err decerr)
      | (obj, _, None) \<Rightarrow>
          if Alarm.Name obj = [] then
            if map_bool_index (Unknowns req) Alarm_Name
            then Inl (Err (errors_New ''Name property cannot be computed from unknown outputs''))
            else Inl (Err (errors_New ''Name property cannot be empty''))
          else Inr \<lparr>NameResponse.Name = Alarm.Name obj\<rparr>)"

definition VPCGatewayAttachmentProvider_Name ::
  "('s, 'pm, 'd, VPCGatewayAttachment) resource_lib \<Rightarrow> 's NameRequest
     \<Rightarrow> fault + NameResponse" where
  "VPCGatewayAttachmentProvider_Name lib req =
     (if NameRequest.Type req \<noteq> VPCGatewayAttachmentToken then Inl (Panic ''assertion failure'')
      else case VPCGatewayAttachmentProvider_Unmarshal lib (Properties req) of
        (obj, _, Some decerr) \<Rightarrow> Inl (Err decerr)
      | (obj, _, None) \<Rightarrow>
          if VPCGatewayAttachment.Name obj = [] then
            if map_bool_index (Unknowns req) VPCGatewayAttachment_Name
            then Inl (Err (errors_New ''Name property cannot be computed from unknown outputs''))
            else Inl (Err (errors_New ''Name property cannot be empty''))
          else Inr \<lparr>NameResponse.Name = VPCGatewayAttachment.Name obj\<rparr>)"

subsection \<open>\<open>InspectChange\<close>\<close>

text \<open>
  \<open>replaces\<close> starts as the nil slice; each \<open>append(replaces, k)\<close> adds \<open>k\<close> at the end;
  the response holds \<open>append(replaces, more...)\<close> (\<open>more\<close> is \<open>more_keys\<close> here).
\<close>

definition AuthorizerProvider_InspectChange ::
  "('s, 'pm, 'd, Authorizer) resource_lib \<Rightarrow> ('d, Authorizer) ops_InspectChange
     \<Rightarrow> 's InspectChangeRequest \<Rightarrow> fault + InspectChangeResponse" where
  "AuthorizerProvider_InspectChange lib ops req =
     (if InspectChangeRequest.Type req \<noteq> AuthorizerToken then Inl (Panic ''assertion failure'')
      else case AuthorizerProvider_Unmarshal lib (Olds req) of
        (old, oldprops, Some decerr) \<Rightarrow> Inl (Err decerr)
      | (old, oldprops, None) \<Rightarrow>
         (case AuthorizerProvider_Unmarshal lib (News req) of
            (new, newprops, Some decerr) \<Rightarrow> Inl (Err decerr)
          | (new, newprops, None) \<Rightarrow>
             (let diff = Diff lib oldprops newprops;
                  replaces =
                    (case diff of
                       None \<Rightarrow> []
                     | Some d \<Rightarrow> (if Changed lib d ''name'' then [''name''] else []))
              in case ops (Id req) old new diff of
                   (more_keys, Some err) \<Rightarrow> Inl (Err err)
                 | (more_keys, None) \<Rightarrow> Inr \<lparr>Replaces = replaces @ more_keys\<rparr>)))"

definition AlarmProvider_InspectChange ::
  "('s, 'pm, 'd, Alarm) resource_lib \<Rightarrow> ('d, Alarm) ops_InspectChange
     \<Rightarrow> 's InspectChangeRequest \<Rightarrow> fault + InspectChangeResponse" where
  "AlarmProvider_InspectChange lib ops req =
     (if InspectChangeRequest.Type req \<noteq> AlarmToken then Inl (Panic ''assertion failure'')
      else case AlarmProvider_Unmarshal lib (Olds req) of
        (old, oldprops, Some decerr) \<Rightarrow> Inl (Err decerr)
      | (old, oldprops, None) \<Rightarrow>
         (case AlarmProvider_Unmarshal lib (News req) of
            (new, newprops, Some decerr) \<Rightarrow> Inl (Err decerr)
          | (new, newprops, None) \<Rightarrow>
             (let diff = Diff lib oldprops newprops;
                  replaces =
                    (case diff of
                       None \<Rightarrow> []
                     | Some d \<Rightarrow>
                         (if Changed lib d ''name'' then [''name''] else [])
                         @ (if Changed lib d ''alarmName'' then [''alarmName''] else []))
              in case ops (Id req) old new diff of
                   (more_keys, Some err) \<Rightarrow> Inl (Err err)
                 | (more_keys, None) \<Rightarrow> Inr \<lparr>Replaces = replaces @ more_keys\<rparr>)))"

definition VPCGatewayAttachmentProvider_InspectChange ::
  "('s, 'pm, 'd, VPCGatewayAttachment) resource_lib
     \<Rightarrow> ('d, VPCGatewayAttachment) ops_InspectChange
     \<Rightarrow> 's InspectChangeRequest \<Rightarrow> fault + InspectChangeResponse" where
  "VPCGatewayAttachmentProvider_InspectChange lib ops req =
     (if InspectChangeRequest.Type req \<noteq> VPCGatewayAttachmentToken
      then Inl (Panic ''assertion failure'')
      else case VPCGatewayAttachmentProvider_Unmarshal lib (Olds req) of
        (old, oldprops, Some decerr) \<Rightarrow> Inl (Err decerr)
      | (old, oldprops, None) \<Rightarrow>
         (case VPCGatewayAttachmentProvider_Unmarshal lib (News req) of
            (new, newprops, Some decerr) \<Rightarrow> Inl (Err decerr)
          | (new, newprops, None) \<Rightarrow>
             (let diff = Diff lib oldprops newprops;
                  replaces =
                    (case diff of
                       None \<Rightarrow> []
                     | Some d \<Rightarrow>
                         (if Changed lib d ''name'' then [''name''] else [])
                         @ (if Changed lib d ''vpc'' then [''vpc''] else [])
                         @ (if Changed lib d ''internetGateway'' then [''internetGateway''] else []))
              in case ops (Id req) old new diff of
                   (more_keys, Some err) \<Rightarrow> Inl (Err err)
                 | (more_keys, None) \<Rightarrow> Inr \<lparr>Replaces = replaces @ more_keys\<rparr>)))"


subsection \<open>The contract of \<open>Name\<close>\<close>

text \<open>
  What a \<open>Name\<close> call owes its caller, given the decoded \<open>Name\<close> field and whether the
  request marks the name key unknown: an empty name is an error, with one message for an
  unknown name and another for a merely empty one; otherwise the response holds exactly
  the decoded name; a response never holds an empty name.
\<close>

definition Name_contract :: "string \<Rightarrow> bool \<Rightarrow> fault + NameResponse \<Rightarrow> bool" where
  "Name_contract decoded_name unknown result \<longleftrightarrow>
     (decoded_name = [] \<longrightarrow>
        result = Inl (Err (errors_New
          (if unknown then ''Name property cannot be computed from unknown outputs''
           else ''Name property cannot be empty''))))
     \<and> (decoded_name \<noteq> [] \<longrightarrow> result = Inr \<lparr>NameResponse.Name = decoded_name\<rparr>)
     \<and> (\<forall>resp. result = Inr resp \<longrightarrow>
            NameResponse.Name resp = decoded_name \<and> NameResponse.Name resp \<noteq> [])"

section \<open>The command-line driver (\<open>cmd/lumi\<close>)\<close>

subsection \<open>Step operations and provider states\<close>

text \<open>
  Modelled from the spec: the declaration of \<open>resource.StepOp\<close> is not in the sources at
  hand. The spec lists the closed enumeration Same, Create, Update, Delete, ReplaceCreate,
  ReplaceDelete; the driver also names \<open>resource.OpReplace\<close> (for its colour).
\<close>

datatype StepOp =
    OpSame | OpCreate | OpUpdate | OpDelete | OpReplace | OpReplaceCreate | OpReplaceDelete

text \<open>
  Modelled from the spec: \<open>resource.StepOps()\<close>, the canonical iteration order used when
  summarizing counts, is not in the sources at hand. \<open>printSummary\<close> below takes the table
  as a parameter; this is the table the spec's enumeration gives.
\<close>

definition StepOps_spec :: "StepOp list" where
  "StepOps_spec = [OpSame, OpCreate, OpUpdate, OpDelete, OpReplaceCreate, OpReplaceDelete]"

text \<open>
  Modelled from the spec: \<open>resource.State\<close> is \<open>OK\<close> or \<open>Unknown\<close>; the declaration is not
  in the sources at hand. \<open>After\<close> has a \<open>default\<close> branch for any other value of the type,
  which is \<open>StateUnrecognized\<close> here.
\<close>

datatype State = StateOK | StateUnknown | StateUnrecognized int

record Step =
  Op :: StepOp

subsection \<open>Diagnostics, output and the world\<close>

text \<open>
  A diagnostic is what \<open>Errorf\<close> or \<open>Infof\<close> is given: the error code of
  \<open>pkg/compiler/errors\<close> with its arguments, or an informational message.
\<close>

datatype diagnostic =
    ErrorIllegalMarkupExtension string
  | ErrorIO error
  | ErrorInvalidEnvName string
  | ErrorCantReadDeployment string error
  | ErrorPlanApplyFailed error
  | Info string

fun is_error :: "diagnostic \<Rightarrow> bool" where
  "is_error (Info _) = False"
| "is_error _ = True"

text \<open>
  What is written to standard output, one item per write, holding the arguments of the
  format string (colours and layout are left to the formatting primitives).
\<close>

datatype printed =
    TotalLine int string string string
  | OpLine StepOp int string string string
  | DurationLine string
  | CatastrophicLine
  | StepFailedLine int StepOp string
  | DeployingHeader string
  | RemovedLine string
  | PlanText string

text \<open>
  The state outside the program: the file system \<open>'fs\<close> (whatever the operating system
  keeps), the diagnostics sink (\<open>cmdutil.Sink()\<close>, which is also the sink of the context
  \<open>initEnvCmdName\<close> creates) and standard output.
\<close>

record 'fs world =
  fsys :: 'fs
  diags :: "diagnostic list"
  stdout :: "printed list"

definition Errorf :: "diagnostic \<Rightarrow> 'fs world \<Rightarrow> 'fs world" where
  "Errorf d w = w\<lparr>diags := diags w @ [d]\<rparr>"

definition Infof :: "string \<Rightarrow> 'fs world \<Rightarrow> 'fs world" where
  "Infof m w = w\<lparr>diags := diags w @ [Info m]\<rparr>"

definition Diag_Success :: "'fs world \<Rightarrow> bool" where
  "Diag_Success w = (filter is_error (diags w) = [])"

definition Printf :: "printed list \<Rightarrow> 'fs world \<Rightarrow> 'fs world" where
  "Printf b w = w\<lparr>stdout := stdout w @ b\<rparr>"

subsection \<open>The operating system and the libraries\<close>

text \<open>
  The calls of \<open>os\<close> and \<open>io/ioutil\<close> the driver makes. Each takes the file system and
  returns its error (\<open>None\<close> for nil) and, when it can modify anything, the file system
  after the call. \<open>os.Stat\<close> and \<open>ioutil.ReadFile\<close> only read.
\<close>

record 'fs os_ops =
  os_Rename :: "string \<Rightarrow> string \<Rightarrow> 'fs \<Rightarrow> error option \<times> 'fs"
  os_Stat :: "string \<Rightarrow> 'fs \<Rightarrow> error option"
  os_MkdirAll :: "string \<Rightarrow> 'fs \<Rightarrow> error option \<times> 'fs"
  ioutil_WriteFile :: "string \<Rightarrow> string \<Rightarrow> 'fs \<Rightarrow> error option \<times> 'fs"
  ioutil_ReadFile :: "string \<Rightarrow> 'fs \<Rightarrow> error + string"

text \<open>
  \<open>encoding.Marshaler\<close>: \<open>Marshal\<close>, and \<open>Unmarshal\<close> at the two types \<open>readEnv\<close> uses it
  at, the typed \<open>resource.Envfile\<close> (\<open>'ef\<close>) and the generic \<open>mapper.Object\<close>.
\<close>

type_synonym Object = "(string \<times> jvalue) list"

record 'ef Marshaler =
  Marshal :: "'ef \<Rightarrow> error + string"
  Unmarshal_Envfile :: "string \<Rightarrow> error + 'ef"
  Unmarshal_Object :: "string \<Rightarrow> error + Object"

record Env =
  Name :: string
  Config :: "(string \<times> jvalue) list"

text \<open>
  The functions of \<open>pkg/workspace\<close>, \<open>pkg/encoding\<close>, \<open>pkg/resource\<close>, \<open>pkg/util/mapper\<close>
  and \<open>path/filepath\<close> the persistence code calls; they are not in the sources at hand and
  are parameters of the model. \<open>'snap\<close> is \<open>resource.Snapshot\<close> (\<open>None\<close> for nil).
  \<open>Detect\<close> returns \<open>None\<close> for a nil marshaler. \<open>mapper_Decode\<close> is \<open>mapper.New(nil).Decode\<close>
  into an \<open>Envfile\<close> that is thrown away.
\<close>

record ('snap, 'ef) lumi_lib =
  EnvPath :: "string \<Rightarrow> string"
  Detect :: "string \<Rightarrow> 'ef Marshaler option \<times> string"
  filepath_Ext :: "string \<Rightarrow> string"
  filepath_Dir :: "string \<Rightarrow> string"
  SerializeEnvfile :: "Env \<Rightarrow> 'snap option \<Rightarrow> string \<Rightarrow> 'ef"
  DeserializeEnvfile :: "'ef \<Rightarrow> Env option \<times> 'snap option"
  mapper_Decode :: "Object \<Rightarrow> error option"

subsection \<open>\<open>backupEnv\<close>, \<open>deleteEnv\<close>, \<open>removeEnv\<close>\<close>

definition backupEnv :: "'fs os_ops \<Rightarrow> string \<Rightarrow> 'fs world \<Rightarrow> fault + 'fs world" where
  "backupEnv os file w =
     (if file = [] then Inl (Panic ''file'')
      else Inr (w\<lparr>fsys := snd (os_Rename os file (file @ ''.bak'') (fsys w))\<rparr>))"

definition deleteEnv ::
  "'fs os_ops \<Rightarrow> ('snap, 'ef) lumi_lib \<Rightarrow> Env option \<Rightarrow> 'fs world \<Rightarrow> fault + 'fs world" where
  "deleteEnv os lib env w =
     (case env of
        None \<Rightarrow> Inl (Panic ''env'')
      | Some e \<Rightarrow>
          (let file = EnvPath lib (Env.Name e)
           in backupEnv os file w))"

definition removeEnv ::
  "'fs os_ops \<Rightarrow> ('snap, 'ef) lumi_lib \<Rightarrow> Env option \<Rightarrow> 'fs world \<Rightarrow> fault + 'fs world" where
  "removeEnv os lib env w =
     (case deleteEnv os lib env w of
        Inl f \<Rightarrow> Inl f
      | Inr w1 \<Rightarrow>
          (case env of
             None \<Rightarrow> Inl (Panic ''nil dereference'')
           | Some e \<Rightarrow> Inr (Printf [RemovedLine (Env.Name e)] w1)))"

text \<open>
  What an operating system promises of \<open>rename\<close>: content that can be read at the source
  is read unchanged at the destination after a rename that succeeds, and still at the
  source after one that fails.
\<close>

definition rename_keeps_content :: "'fs os_ops \<Rightarrow> bool" where
  "rename_keeps_content os \<longleftrightarrow>
     (\<forall>src dst fs b.
        ioutil_ReadFile os src fs = Inr b \<longrightarrow>
        ioutil_ReadFile os (if fst (os_Rename os src dst fs) = None then dst else src)
          (snd (os_Rename os src dst fs)) = Inr b)"

subsection \<open>\<open>readEnv\<close>\<close>

text \<open>
  \<open>obj["latest"]\<close> is not nil and is a \<open>map[string]interface{}\<close> exactly when the key holds
  an object; then \<open>delete(latest, "resources")\<close> removes that key from the nested object,
  which \<open>obj\<close> shares.
\<close>

definition delete_resources :: "Object \<Rightarrow> Object" where
  "delete_resources obj =
     (case map_of obj ''latest'' of
        Some (JObject latest) \<Rightarrow>
          map (\<lambda>(k, v). if k = ''latest''
                         then (k, JObject (filter (\<lambda>(k', v'). k' \<noteq> ''resources'') latest))
                         else (k, v)) obj
      | _ \<Rightarrow> obj)"

definition readEnv ::
  "'fs os_ops \<Rightarrow> ('snap, 'ef) lumi_lib \<Rightarrow> string \<Rightarrow> 'fs world
     \<Rightarrow> fault + ('ef \<times> Env \<times> 'snap option) option \<times> 'fs world" where
  "readEnv os lib name w =
     (if name = [] then Inl (Panic ''name'')
      else
        let file = EnvPath lib name;
            (m, ext) = Detect lib file
        in case m of
             None \<Rightarrow> Inr (None, Errorf (ErrorIllegalMarkupExtension ext) w)
           | Some m \<Rightarrow>
              (case ioutil_ReadFile os file (fsys w) of
                 Inl err \<Rightarrow>
                   if os_IsNotExist err
                   then Inr (None, Errorf (ErrorInvalidEnvName name) w)
                   else Inr (None, Errorf (ErrorIO err) w)
               | Inr b \<Rightarrow>
                  (case Unmarshal_Envfile m b of
                     Inl err \<Rightarrow> Inr (None, Errorf (ErrorCantReadDeployment file err) w)
                   | Inr envfile \<Rightarrow>
                      (case Unmarshal_Object m b of
                         Inl err \<Rightarrow> Inr (None, Errorf (ErrorCantReadDeployment file err) w)
                       | Inr obj \<Rightarrow>
                          (case mapper_Decode lib (delete_resources obj) of
                             Some err \<Rightarrow>
                               Inr (None, Errorf (ErrorCantReadDeployment file err) w)
                           | None \<Rightarrow>
                              (case DeserializeEnvfile lib envfile of
                                 (None, snap) \<Rightarrow> Inl (Panic ''assertion failure'')
                               | (Some env, snap) \<Rightarrow> Inr (Some (envfile, env, snap), w)))))))"

subsection \<open>\<open>saveEnv\<close>\<close>

definition saveEnv ::
  "'fs os_ops \<Rightarrow> ('snap, 'ef) lumi_lib \<Rightarrow> Env option \<Rightarrow> 'snap option \<Rightarrow> string \<Rightarrow> bool
     \<Rightarrow> 'fs world \<Rightarrow> fault + bool \<times> 'fs world" where
  "saveEnv os lib env snap file0 existok w =
     (case env of
        None \<Rightarrow> Inl (Panic ''env'')
      | Some e \<Rightarrow>
         (let file1 = (if file0 = [] then EnvPath lib (Env.Name e) else file0);
              (m, ext) = Detect lib file1
          in case m of
               None \<Rightarrow> Inr (False, Errorf (ErrorIllegalMarkupExtension ext) w)
             | Some m \<Rightarrow>
                (let file = (if filepath_Ext lib file1 = [] then file1 @ ext else file1);
                     dep = SerializeEnvfile lib e snap []
                 in case Marshal m dep of
                      Inl err \<Rightarrow> Inr (False, Errorf (ErrorIO err) w)
                    | Inr b \<Rightarrow>
                       if \<not> existok \<and> os_Stat os file (fsys w) = None
                       then Inr (False,
                              Errorf (ErrorIO (errors_New
                                (''file '' @ [CHR 0x27] @ file @ [CHR 0x27] @ '' already exists''))) w)
                       else
                        (case backupEnv os file w of
                           Inl f \<Rightarrow> Inl f
                         | Inr w1 \<Rightarrow>
                            (case os_MkdirAll os (filepath_Dir lib file) (fsys w1) of
                               (Some err, fs2) \<Rightarrow>
                                 Inr (False, Errorf (ErrorIO err) (w1\<lparr>fsys := fs2\<rparr>))
                             | (None, fs2) \<Rightarrow>
                                (case ioutil_WriteFile os file b fs2 of
                                   (Some err, fs3) \<Rightarrow>
                                     Inr (False, Errorf (ErrorIO err) (w1\<lparr>fsys := fs3\<rparr>))
                                 | (None, fs3) \<Rightarrow> Inr (True, w1\<lparr>fsys := fs3\<rparr>)))))))"

text \<open>The path \<open>saveEnv\<close> writes to, once the marshaler is detected.\<close>

definition resolved_path :: "('snap, 'ef) lumi_lib \<Rightarrow> Env \<Rightarrow> string \<Rightarrow> string" where
  "resolved_path lib e file0 =
     (let file1 = (if file0 = [] then EnvPath lib (Env.Name e) else file0)
      in if filepath_Ext lib file1 = [] then file1 @ snd (Detect lib file1) else file1)"



subsection \<open>\<open>applyProgress\<close>\<close>

text \<open>
  \<open>Steps\<close> and the counts are Go \<open>int\<close>s that only ever count steps of one plan; they
  are unbounded integers here. \<open>Ops\<close> is a Go map: reading a missing key gives \<open>0\<close>.
\<close>

record applyProgress =
  Steps :: int
  Ops :: "StepOp \<rightharpoonup> int"
  MaybeCorrupt :: bool
  Summary :: bool

definition counts_index :: "(StepOp \<rightharpoonup> int) \<Rightarrow> StepOp \<Rightarrow> int" where
  "counts_index counts op = (case counts op of None \<Rightarrow> 0 | Some c \<Rightarrow> c)"

definition newProgress :: "bool \<Rightarrow> applyProgress" where
  "newProgress summary = \<lparr>Steps = 0, Ops = Map.empty, MaybeCorrupt = False, Summary = summary\<rparr>"

definition After ::
  "Step \<Rightarrow> State \<Rightarrow> error option \<Rightarrow> applyProgress \<times> 'fs world
     \<Rightarrow> fault + applyProgress \<times> 'fs world" where
  "After step state err pw =
     (case pw of (prog, w) \<Rightarrow>
        (case err of
           None \<Rightarrow>
             Inr (prog\<lparr>Steps := Steps prog + 1,
                       Ops := (Ops prog)(Op step \<mapsto> counts_index (Ops prog) (Op step) + 1)\<rparr>, w)
         | Some e \<Rightarrow>
            (let w1 = Errorf (ErrorPlanApplyFailed e) w;
                 stepnum = Steps prog + 1
             in case state of
                  StateOK \<Rightarrow>
                    Inr (prog,
                         Printf [StepFailedLine stepnum (Op step)
                                   ''provider successfully recovered from this failure''] w1)
                | StateUnknown \<Rightarrow>
                    Inr (prog\<lparr>MaybeCorrupt := True\<rparr>,
                         Printf [StepFailedLine stepnum (Op step)
                                   ''this failure was catastrophic and the provider cannot guarantee recovery''] w1)
                | StateUnrecognized n \<Rightarrow> Inl (Panic ''Unrecognized resource state''))))"

text \<open>
  A sequence of \<open>After\<close> callbacks on one accumulator, in the order they are issued; a
  panic ends the sequence.
\<close>

fun After_sequence ::
  "(Step \<times> State \<times> error option) list \<Rightarrow> applyProgress \<times> 'fs world
     \<Rightarrow> fault + applyProgress \<times> 'fs world" where
  "After_sequence [] pw = Inr pw"
| "After_sequence ((step, state, err) # cbs) pw =
     (case After step state err pw of
        Inl f \<Rightarrow> Inl f
      | Inr pw' \<Rightarrow> After_sequence cbs pw')"

subsection \<open>\<open>printSummary\<close>\<close>

definition plural :: "string \<Rightarrow> int \<Rightarrow> string" where
  "plural s c = (if c \<noteq> 1 then s @ ''s'' else s)"

text \<open>
  A Go \<open>int\<close> is 64 bits wide on the platforms the driver is built for. The result of
  an addition is the sum wrapped into the range from \<open>-(2 ^ 63)\<close> to \<open>2 ^ 63 - 1\<close>.
\<close>

definition int_wrap :: "int \<Rightarrow> int" where
  "int_wrap i = (i + 2 ^ 63) mod 2 ^ 64 - 2 ^ 63"

text \<open>
  The counting loop of \<open>printPlan\<close>: \<open>counts[step.Op()]++\<close> for each step of the plan in
  order; \<open>printPlan\<close> starts it from the empty map. \<open>After\<close> makes the same increment
  of \<open>progress.Ops\<close> for each step that completes, from the empty map of \<open>newProgress\<close>.
\<close>

fun count_steps :: "Step list \<Rightarrow> (StepOp \<rightharpoonup> int) \<Rightarrow> (StepOp \<rightharpoonup> int)" where
  "count_steps [] counts = counts"
| "count_steps (step # steps) counts =
     count_steps steps (counts(Op step \<mapsto> int_wrap (counts_index counts (Op step) + 1)))"

text \<open>
  The first loop: the total over the entries of the map. Each \<open>total += c\<close> wraps;
  wrapping after every addition gives the sum of the entries wrapped once, in whatever
  order the map is traversed.
\<close>

definition summary_total :: "(StepOp \<rightharpoonup> int) \<Rightarrow> bool \<Rightarrow> int" where
  "summary_total counts showReplaceSteps =
     int_wrap (\<Sum>op \<in> dom counts.
        if \<not> showReplaceSteps \<and> (op = OpReplaceCreate \<or> op = OpReplaceDelete) then 0
        else counts_index counts op)"

text \<open>The second loop: one line for each operation of \<open>StepOps()\<close> with a positive count.\<close>

fun summary_lines ::
  "StepOp list \<Rightarrow> (StepOp \<rightharpoonup> int) \<Rightarrow> bool \<Rightarrow> string \<Rightarrow> string \<Rightarrow> printed list" where
  "summary_lines [] counts showReplaceSteps planTo pastTense = []"
| "summary_lines (op # ops) counts showReplaceSteps planTo pastTense =
     (if \<not> showReplaceSteps \<and> (op = OpReplaceCreate \<or> op = OpReplaceDelete)
      then summary_lines ops counts showReplaceSteps planTo pastTense
      else if counts_index counts op > 0
      then OpLine op (counts_index counts op) (plural ''resource'' (counts_index counts op))
             planTo pastTense
           # summary_lines ops counts showReplaceSteps planTo pastTense
      else summary_lines ops counts showReplaceSteps planTo pastTense)"

definition printSummary ::
  "StepOp list \<Rightarrow> printed list \<Rightarrow> (StepOp \<rightharpoonup> int) \<Rightarrow> bool \<Rightarrow> bool \<Rightarrow> printed list" where
  "printSummary StepOps b counts showReplaceSteps plan =
     (let total = summary_total counts showReplaceSteps;
          planned = (if plan then ''planned '' else []);
          colon = (if total \<noteq> 0 then '':'' else []);
          b1 = b @ [TotalLine total planned (plural ''change'' total) colon];
          planTo = (if plan then ''to '' else []);
          pastTense = (if plan then [] else ''d'')
      in b1 @ summary_lines StepOps counts showReplaceSteps planTo pastTense)"

text \<open>The numbers a summary shows: the total of its total line, the count of an operation line.\<close>

fun shown_total :: "printed \<Rightarrow> int" where
  "shown_total (TotalLine n _ _ _) = n"
| "shown_total _ = 0"

fun shown_count :: "printed \<Rightarrow> int" where
  "shown_count (OpLine _ c _ _ _) = c"
| "shown_count _ = 0"

fun shown_op :: "printed \<Rightarrow> StepOp option" where
  "shown_op (OpLine op _ _ _ _) = Some op"
| "shown_op _ = None"

subsection \<open>\<open>apply\<close>\<close>

text \<open>The function \<open>apply\<close> of the driver is \<open>apply'\<close> here.\<close>

record applyOptions =
  Create :: bool
  Delete :: bool
  DryRun :: bool
  Analyzers :: "string list"
  ShowConfig :: bool
  ShowReplaceSteps :: bool
  ShowUnchanged :: bool
  Summary :: bool
  DOT :: bool
  Output :: string

record 'snap envCmdInfo =
  Env :: "Env option"
  Old :: "'snap option"
  Args :: "string list"

record ('plan, 'snap) planResult =
  Info :: "'snap envCmdInfo"
  New :: "'snap option"
  Plan :: 'plan

text \<open>
  What \<open>apply\<close> calls outside the persistence code: \<open>plan\<close> (compilation and
  \<open>resource.NewPlan\<close>; \<open>None\<close> for a nil result), the plan printers, \<open>Plan.Empty\<close>,
  \<open>Plan.Apply\<close> (which drives the \<open>Before\<close> and \<open>After\<close> callbacks of the progress object
  and returns the checkpoint and the error), the \<open>StepOps()\<close> table and the elapsed time
  as printed.
\<close>

record ('fs, 'plan, 'snap) apply_env =
  plan :: "'snap envCmdInfo \<Rightarrow> applyOptions \<Rightarrow> 'fs world
             \<Rightarrow> ('plan, 'snap) planResult option \<times> 'fs world"
  printPlan :: "('plan, 'snap) planResult \<Rightarrow> applyOptions \<Rightarrow> string"
  printPrelude :: "('plan, 'snap) planResult \<Rightarrow> applyOptions \<Rightarrow> string"
  Plan_Empty :: "'plan \<Rightarrow> bool"
  Plan_Apply :: "'plan \<Rightarrow> applyProgress \<times> 'fs world
                   \<Rightarrow> fault + 'snap option \<times> error option \<times> applyProgress \<times> 'fs world"
  StepOps :: "StepOp list"
  time_Since :: string

definition checkEmpty ::
  "('fs, 'plan, 'snap) apply_env \<Rightarrow> 'plan \<Rightarrow> 'fs world \<Rightarrow> bool \<times> 'fs world" where
  "checkEmpty ae pl w =
     (if Plan_Empty ae pl then (True, Infof ''no resources need to be updated'' w)
      else (False, w))"

definition apply' ::
  "'fs os_ops \<Rightarrow> ('snap, 'ef) lumi_lib \<Rightarrow> ('fs, 'plan, 'snap) apply_env
     \<Rightarrow> 'snap envCmdInfo \<Rightarrow> applyOptions \<Rightarrow> 'fs world \<Rightarrow> fault + 'fs world" where
  "apply' os lib ae info opts w =
     (case plan ae info opts w of
        (None, w1) \<Rightarrow> Inr w1
      | (Some result, w1) \<Rightarrow>
          if DryRun opts then
            if Output opts = [] \<or> Output opts = ''-''
            then Inr (Printf [PlanText (printPlan ae result opts)] w1)
            else (case saveEnv os lib (Env info) (New result) (Output opts) True w1 of
                    Inl f \<Rightarrow> Inl f
                  | Inr (_, w2) \<Rightarrow> Inr w2)
          else
           (let w2 = Printf [DeployingHeader (printPrelude ae result opts)] w1;
                (empty, w3) = checkEmpty ae (Plan result) w2;
                progress = newProgress (applyOptions.Summary opts)
            in case Plan_Apply ae (Plan result) (progress, w3) of
                 Inl f \<Rightarrow> Inl f
               | Inr (checkpoint, err, progress', w4) \<Rightarrow>
                   if err \<noteq> None \<and> Diag_Success w4 then Inl (Panic ''assertion failure'')
                   else
                    (let summary1 =
                           (if \<not> empty
                            then printSummary (StepOps ae) [] (Ops progress')
                                   (ShowReplaceSteps opts) False
                                 @ [DurationLine (time_Since ae)]
                            else []);
                         summary =
                           (if MaybeCorrupt progress' then summary1 @ [CatastrophicLine]
                            else summary1);
                         env = Env (Info result)
                     in case saveEnv os lib env checkpoint (Output opts) True w4 of
                          Inl f \<Rightarrow> Inl f
                        | Inr (_, w5) \<Rightarrow> Inr (Printf summary w5))))"

section \<open>Example instances of the parameters\<close>

text \<open>
  Small executable instances of the library and operating-system parameters, on which the
  theorems below are evaluated. Property bags are association lists of strings; a diff is
  the pair of differing bags.
\<close>

type_synonym example_props = "(string \<times> string) list"

definition example_lookup :: "example_props \<Rightarrow> string \<Rightarrow> string" where
  "example_lookup pm k = (case map_of pm k of None \<Rightarrow> [] | Some v \<Rightarrow> v)"

definition example_Diff ::
  "example_props \<Rightarrow> example_props \<Rightarrow> (example_props \<times> example_props) option" where
  "example_Diff olds news =
     (if list_all (\<lambda>k. map_of olds k = map_of news k) (map fst olds @ map fst news)
      then None else Some (olds, news))"

definition example_Changed :: "example_props \<times> example_props \<Rightarrow> string \<Rightarrow> bool" where
  "example_Changed d k = (map_of (fst d) k \<noteq> map_of (snd d) k)"

definition example_decerr :: "example_props \<Rightarrow> error option" where
  "example_decerr pm =
     (if map_of pm ''name'' = None then Some (DecodeError [''name'']) else None)"

definition example_Authorizer :: "example_props \<Rightarrow> Authorizer" where
  "example_Authorizer pm =
     \<lparr>Authorizer.Name = example_lookup pm ''name'', Type = example_lookup pm ''type'',
      AuthorizerCredentials = None, AuthorizerResultTTLInSeconds = None, AuthorizerURI = None,
      IdentitySource = None, IdentityValidationExpression = None, Providers = None,
      RestAPI = map_of pm ''restAPI''\<rparr>"

definition example_Alarm :: "example_props \<Rightarrow> Alarm" where
  "example_Alarm pm =
     \<lparr>Alarm.Name = example_lookup pm ''name'',
      ComparisonOperator = example_lookup pm ''comparisonOperator'',
      EvaluationPeriods = 0, MetricName = example_lookup pm ''metricName'',
      Namespace = example_lookup pm ''namespace'', Period = 0,
      Statistic = example_lookup pm ''statistic'', Threshold = 0,
      ActionsEnabled = None, AlarmActions = None, AlarmDescription = None,
      AlarmName = map_of pm ''alarmName'', Dimensions = None,
      InsufficientDataActions = None, OKActions = None, Unit = None\<rparr>"

definition example_VPCGatewayAttachment :: "example_props \<Rightarrow> VPCGatewayAttachment" where
  "example_VPCGatewayAttachment pm =
     \<lparr>VPCGatewayAttachment.Name = example_lookup pm ''name'', VPC = example_lookup pm ''vpc'',
      InternetGateway = example_lookup pm ''internetGateway''\<rparr>"

definition example_lib ::
  "(example_props \<Rightarrow> 'obj)
     \<Rightarrow> (example_props, example_props, example_props \<times> example_props, 'obj) resource_lib" where
  "example_lib decode =
     \<lparr>UnmarshalProperties = (\<lambda>v. v),
      MapIU = (\<lambda>pm. (decode pm, example_decerr pm)),
      Diff = example_Diff, Changed = example_Changed\<rparr>"

text \<open>A provider callback that declares one more replacement key, and one that fails.\<close>

definition example_ops :: "(example_props \<times> example_props, 'obj) ops_InspectChange" where
  "example_ops rid old new diff = ([''restAPI''], None)"

definition example_failing_ops :: "(example_props \<times> example_props, 'obj) ops_InspectChange" where
  "example_failing_ops rid old new diff = ([], Some (errors_New ''not supported''))"

text \<open>A world with no file system, and a sequence of callbacks with one catastrophic failure.\<close>

definition example_world :: "unit world" where
  "example_world = \<lparr>fsys = (), diags = [], stdout = []\<rparr>"

definition example_callbacks :: "(Step \<times> State \<times> error option) list" where
  "example_callbacks =
     [(\<lparr>Op = OpCreate\<rparr>, StateOK, None),
      (\<lparr>Op = OpUpdate\<rparr>, StateOK, Some (errors_New ''throttled'')),
      (\<lparr>Op = OpDelete\<rparr>, StateUnknown, Some (errors_New ''connection lost'')),
      (\<lparr>Op = OpCreate\<rparr>, StateOK, None)]"

text \<open>The steps of a plan with two creations, one update and one replacement.\<close>

definition example_steps :: "Step list" where
  "example_steps =
     [\<lparr>Op = OpCreate\<rparr>, \<lparr>Op = OpReplaceCreate\<rparr>, \<lparr>Op = OpReplaceDelete\<rparr>,
      \<lparr>Op = OpUpdate\<rparr>, \<lparr>Op = OpCreate\<rparr>]"

text \<open>
  A file system that is a map from paths to contents. \<open>Rename\<close> moves the content and
  fails when the source is missing; \<open>Stat\<close> and \<open>ReadFile\<close> fail on a missing path;
  \<open>MkdirAll\<close> fails when the path is a file; \<open>WriteFile\<close> replaces the content.
\<close>

definition example_os :: "(string \<rightharpoonup> string) os_ops" where
  "example_os =
     \<lparr>os_Rename = (\<lambda>src dst fs.
        case fs src of
          None \<Rightarrow> (Some (OSError True (''rename '' @ src)), fs)
        | Some c \<Rightarrow> (None, (fs(src := None))(dst \<mapsto> c))),
      os_Stat = (\<lambda>p fs.
        case fs p of None \<Rightarrow> Some (OSError True (''stat '' @ p)) | Some c \<Rightarrow> None),
      os_MkdirAll = (\<lambda>d fs.
        case fs d of
          None \<Rightarrow> (None, fs)
        | Some c \<Rightarrow> (Some (OSError False (''mkdir '' @ d)), fs)),
      ioutil_WriteFile = (\<lambda>p b fs. (None, fs(p \<mapsto> b))),
      ioutil_ReadFile = (\<lambda>p fs.
        case fs p of None \<Rightarrow> Inl (OSError True (''open '' @ p)) | Some c \<Rightarrow> Inr c)\<rparr>"

text \<open>
  A marshaler for the extension \<open>.json\<close> whose envfile is the environment and the
  snapshot, written as the name, a line break and the snapshot; a name with a line break
  cannot be marshalled, a document without one cannot be unmarshalled.
\<close>

definition example_Ext :: "string \<Rightarrow> string" where
  "example_Ext p =
     (let base = rev (takeWhile (\<lambda>c. c \<noteq> CHR ''/'') (rev p))
      in if CHR ''.'' \<in> set base
         then CHR ''.'' # rev (takeWhile (\<lambda>c. c \<noteq> CHR ''.'') (rev base))
         else [])"

definition example_Dir :: "string \<Rightarrow> string" where
  "example_Dir p =
     (let d = rev (dropWhile (\<lambda>c. c \<noteq> CHR ''/'') (rev p))
      in if d = [] then ''.'' else butlast d)"

definition example_Marshaler :: "(Env \<times> string option) Marshaler" where
  "example_Marshaler =
     \<lparr>Marshal = (\<lambda>ef.
        if CHR 0x0A \<in> set (Env.Name (fst ef)) then Inl (errors_New ''line break in name'')
        else Inr (Env.Name (fst ef) @ [CHR 0x0A]
                  @ (case snd ef of None \<Rightarrow> [] | Some s \<Rightarrow> s))),
      Unmarshal_Envfile = (\<lambda>b.
        if CHR 0x0A \<notin> set b then Inl (errors_New ''unexpected end of input'')
        else Inr (\<lparr>Env.Name = takeWhile (\<lambda>c. c \<noteq> CHR 0x0A) b, Config = []\<rparr>,
                  (let s = tl (dropWhile (\<lambda>c. c \<noteq> CHR 0x0A) b)
                   in if s = [] then None else Some s))),
      Unmarshal_Object = (\<lambda>b.
        if CHR 0x0A \<notin> set b then Inl (errors_New ''unexpected end of input'')
        else Inr [(''name'', JString (takeWhile (\<lambda>c. c \<noteq> CHR 0x0A) b)),
                  (''latest'',
                   JObject [(''resources'',
                             JString (tl (dropWhile (\<lambda>c. c \<noteq> CHR 0x0A) b)))])])\<rparr>"

definition example_lumi :: "(string, Env \<times> string option) lumi_lib" where
  "example_lumi =
     \<lparr>EnvPath = (\<lambda>name. ''.lumi/env/'' @ name @ ''.json''),
      Detect = (\<lambda>file.
        let ext = (if example_Ext file = [] then ''.json'' else example_Ext file)
        in (if ext = ''.json'' then Some example_Marshaler else None, ext)),
      filepath_Ext = example_Ext,
      filepath_Dir = example_Dir,
      SerializeEnvfile = (\<lambda>env snap ref. (env, snap)),
      DeserializeEnvfile = (\<lambda>ef. (Some (fst ef), snd ef)),
      mapper_Decode = (\<lambda>obj.
        if list_all (\<lambda>kv. fst kv = ''name'' \<or> fst kv = ''config'' \<or> fst kv = ''latest'') obj
        then None else Some (DecodeError (map fst obj)))\<rparr>"

definition example_env :: Env where
  "example_env = \<lparr>Env.Name = ''prod'', Config = []\<rparr>"

definition example_files :: "(string \<rightharpoonup> string) world" where
  "example_files =
     \<lparr>fsys = [''.lumi/env/prod.json'' \<mapsto> ''prod'' @ [CHR 0x0A] @ ''vpc-1''],
      diags = [], stdout = []\<rparr>"

definition example_no_files :: "(string \<rightharpoonup> string) world" where
  "example_no_files = \<lparr>fsys = Map.empty, diags = [], stdout = []\<rparr>"

text \<open>
  A plan that is its list of steps with the outcome of each; applying it issues the
  \<open>After\<close> callbacks in order and stops at the first failure, the checkpoint recording
  the steps that completed.
\<close>

fun example_Plan_Apply ::
  "(Step \<times> State \<times> error option) list \<Rightarrow> string \<Rightarrow> applyProgress \<times> 'fs world
     \<Rightarrow> fault + string option \<times> error option \<times> applyProgress \<times> 'fs world" where
  "example_Plan_Apply [] completed pw = Inr (Some completed, None, pw)"
| "example_Plan_Apply ((step, state, err) # steps) completed pw =
     (case After step state err pw of
        Inl f \<Rightarrow> Inl f
      | Inr pw' \<Rightarrow>
          (case err of
             Some e \<Rightarrow> Inr (Some completed, Some e, pw')
           | None \<Rightarrow> example_Plan_Apply steps (completed @ ''+'') pw'))"

definition example_apply_env ::
  "(Step \<times> State \<times> error option) list
     \<Rightarrow> ('fs, (Step \<times> State \<times> error option) list, string) apply_env" where
  "example_apply_env steps =
     \<lparr>plan = (\<lambda>info opts w. (Some \<lparr>Info = info, New = Some ''+++'', Plan = steps\<rparr>, w)),
      printPlan = (\<lambda>result opts. ''plan''),
      printPrelude = (\<lambda>result opts. []),
      Plan_Empty = (\<lambda>pl. pl = []),
      Plan_Apply = (\<lambda>pl pw. example_Plan_Apply pl [] pw),
      StepOps = StepOps_spec,
      time_Since = ''1s''\<rparr>"

definition example_info :: "string envCmdInfo" where
  "example_info = \<lparr>Env = Some example_env, Old = Some ''vpc-1'', Args = []\<rparr>"

definition example_opts :: applyOptions where
  "example_opts =
     \<lparr>Create = False, Delete = False, DryRun = False, Analyzers = [], ShowConfig = False,
      ShowReplaceSteps = False, ShowUnchanged = False, Summary = False, DOT = False,
      Output = []\<rparr>"

section \<open>Properties of the provider stubs\<close>

subsection \<open>\<open>Name\<close>\<close>

lemma AuthorizerProvider_Name_contract:
  assumes "NameRequest.Type req = AuthorizerToken"
      and "snd (snd (AuthorizerProvider_Unmarshal lib (Properties req))) = None"
  shows "Name_contract (Authorizer.Name (fst (AuthorizerProvider_Unmarshal lib (Properties req))))
           (map_bool_index (Unknowns req) Authorizer_Name) (AuthorizerProvider_Name lib req)"
proof (cases "AuthorizerProvider_Unmarshal lib (Properties req)")
  case (fields obj props decerr)
  with assms(2) have "decerr = None" by simp
  with fields assms(1) show ?thesis
    by (simp add: Name_contract_def AuthorizerProvider_Name_def)
qed

lemma AlarmProvider_Name_contract:
  assumes "NameRequest.Type req = AlarmToken"
      and "snd (snd (AlarmProvider_Unmarshal lib (Properties req))) = None"
  shows "Name_contract (Alarm.Name (fst (AlarmProvider_Unmarshal lib (Properties req))))
           (map_bool_index (Unknowns req) Alarm_Name) (AlarmProvider_Name lib req)"
proof (cases "AlarmProvider_Unmarshal lib (Properties req)")
  case (fields obj props decerr)
  with assms(2) have "decerr = None" by simp
  with fields assms(1) show ?thesis
    by (simp add: Name_contract_def AlarmProvider_Name_def)
qed

lemma VPCGatewayAttachmentProvider_Name_contract:
  assumes "NameRequest.Type req = VPCGatewayAttachmentToken"
      and "snd (snd (VPCGatewayAttachmentProvider_Unmarshal lib (Properties req))) = None"
  shows "Name_contract (VPCGatewayAttachment.Name (fst (VPCGatewayAttachmentProvider_Unmarshal lib (Properties req))))
           (map_bool_index (Unknowns req) VPCGatewayAttachment_Name) (VPCGatewayAttachmentProvider_Name lib req)"
proof (cases "VPCGatewayAttachmentProvider_Unmarshal lib (Properties req)")
  case (fields obj props decerr)
  with assms(2) have "decerr = None" by simp
  with fields assms(1) show ?thesis
    by (simp add: Name_contract_def VPCGatewayAttachmentProvider_Name_def)
qed

text \<open>
  Claim C9. For each of the three providers, a \<open>Name\<close> call of the provider's own type
  whose properties decode without error meets the contract of \<open>Name\<close>: it fails when the
  decoded \<open>Name\<close> is empty, with the message about unknown outputs when the request marks
  the name key unknown and the message about an empty name otherwise, and a response
  holds exactly the decoded name, which is then not empty.
\<close>

theorem Name_rpc_meets_contract:
  "(NameRequest.Type reqA = AuthorizerToken
      \<and> snd (snd (AuthorizerProvider_Unmarshal libA (Properties reqA))) = None \<longrightarrow>
      Name_contract (Authorizer.Name (fst (AuthorizerProvider_Unmarshal libA (Properties reqA))))
        (map_bool_index (Unknowns reqA) Authorizer_Name) (AuthorizerProvider_Name libA reqA))
   \<and> (NameRequest.Type reqB = AlarmToken
      \<and> snd (snd (AlarmProvider_Unmarshal libB (Properties reqB))) = None \<longrightarrow>
      Name_contract (Alarm.Name (fst (AlarmProvider_Unmarshal libB (Properties reqB))))
        (map_bool_index (Unknowns reqB) Alarm_Name) (AlarmProvider_Name libB reqB))
   \<and> (NameRequest.Type reqC = VPCGatewayAttachmentToken
      \<and> snd (snd (VPCGatewayAttachmentProvider_Unmarshal libC (Properties reqC))) = None \<longrightarrow>
      Name_contract
        (VPCGatewayAttachment.Name
           (fst (VPCGatewayAttachmentProvider_Unmarshal libC (Properties reqC))))
        (map_bool_index (Unknowns reqC) VPCGatewayAttachment_Name)
        (VPCGatewayAttachmentProvider_Name libC reqC))"
  using AuthorizerProvider_Name_contract [of reqA libA]
        AlarmProvider_Name_contract [of reqB libB]
        VPCGatewayAttachmentProvider_Name_contract [of reqC libC]
  by blast

lemma example_Unmarshal [simp]:
  "AuthorizerProvider_Unmarshal (example_lib example_Authorizer) v
     = (example_Authorizer v, v, example_decerr v)"
  "AlarmProvider_Unmarshal (example_lib example_Alarm) v
     = (example_Alarm v, v, example_decerr v)"
  "VPCGatewayAttachmentProvider_Unmarshal (example_lib example_VPCGatewayAttachment) v
     = (example_VPCGatewayAttachment v, v, example_decerr v)"
  by (simp_all add: AuthorizerProvider_Unmarshal_def AlarmProvider_Unmarshal_def
        VPCGatewayAttachmentProvider_Unmarshal_def example_lib_def)

theorem Name_rpc_meets_contract_witness:
  "AuthorizerProvider_Name (example_lib example_Authorizer)
      \<lparr>NameRequest.Type = AuthorizerToken, Properties = [(''name'', [])],
       Unknowns = [''name'' \<mapsto> True]\<rparr>
     = Inl (Err (errors_New ''Name property cannot be computed from unknown outputs''))
   \<and> AlarmProvider_Name (example_lib example_Alarm)
      \<lparr>NameRequest.Type = AlarmToken, Properties = [(''name'', [])], Unknowns = Map.empty\<rparr>
     = Inl (Err (errors_New ''Name property cannot be empty''))
   \<and> VPCGatewayAttachmentProvider_Name (example_lib example_VPCGatewayAttachment)
      \<lparr>NameRequest.Type = VPCGatewayAttachmentToken, Properties = [(''name'', ''gw'')],
       Unknowns = Map.empty\<rparr>
     = Inr \<lparr>NameResponse.Name = ''gw''\<rparr>"
  using Name_rpc_meets_contract
    [of "\<lparr>NameRequest.Type = AuthorizerToken, Properties = [(''name'', [])],
           Unknowns = [''name'' \<mapsto> True]\<rparr>"
        "example_lib example_Authorizer"
        "\<lparr>NameRequest.Type = AlarmToken, Properties = [(''name'', [])],
           Unknowns = Map.empty\<rparr>"
        "example_lib example_Alarm"
        "\<lparr>NameRequest.Type = VPCGatewayAttachmentToken, Properties = [(''name'', ''gw'')],
           Unknowns = Map.empty\<rparr>"
        "example_lib example_VPCGatewayAttachment"]
  by (simp add: Name_contract_def example_decerr_def example_Authorizer_def example_Alarm_def
        example_VPCGatewayAttachment_def example_lookup_def map_bool_index_def
        Authorizer_Name_def Alarm_Name_def VPCGatewayAttachment_Name_def)

subsection \<open>\<open>InspectChange\<close>\<close>

lemma AuthorizerProvider_InspectChange_name:
  assumes "Diff lib (UnmarshalProperties lib (Olds req)) (UnmarshalProperties lib (News req)) = Some d"
      and "Changed lib d ''name''"
  shows "(\<forall>resp. AuthorizerProvider_InspectChange lib ops req = Inr resp \<longrightarrow>
            ''name'' \<in> set (Replaces resp) \<and>
            Replaces resp = [''name'']
               @ fst (ops (Id req) (fst (AuthorizerProvider_Unmarshal lib (Olds req)))
                        (fst (AuthorizerProvider_Unmarshal lib (News req))) (Some d)))
       \<and> (InspectChangeRequest.Type req = AuthorizerToken
            \<and> snd (snd (AuthorizerProvider_Unmarshal lib (Olds req))) = None
            \<and> snd (snd (AuthorizerProvider_Unmarshal lib (News req))) = None
            \<and> snd (ops (Id req) (fst (AuthorizerProvider_Unmarshal lib (Olds req)))
                        (fst (AuthorizerProvider_Unmarshal lib (News req))) (Some d)) = None
            \<longrightarrow> (\<exists>resp. AuthorizerProvider_InspectChange lib ops req = Inr resp))"
  using assms
  by (auto simp: AuthorizerProvider_InspectChange_def AuthorizerProvider_Unmarshal_def Let_def
           split: if_splits prod.splits option.splits)

lemma AlarmProvider_InspectChange_name:
  assumes "Diff lib (UnmarshalProperties lib (Olds req)) (UnmarshalProperties lib (News req)) = Some d"
      and "Changed lib d ''name''"
  shows "(\<forall>resp. AlarmProvider_InspectChange lib ops req = Inr resp \<longrightarrow>
            ''name'' \<in> set (Replaces resp) \<and>
            Replaces resp = (''name'' # (if Changed lib d ''alarmName'' then [''alarmName''] else []))
               @ fst (ops (Id req) (fst (AlarmProvider_Unmarshal lib (Olds req)))
                        (fst (AlarmProvider_Unmarshal lib (News req))) (Some d)))
       \<and> (InspectChangeRequest.Type req = AlarmToken
            \<and> snd (snd (AlarmProvider_Unmarshal lib (Olds req))) = None
            \<and> snd (snd (AlarmProvider_Unmarshal lib (News req))) = None
            \<and> snd (ops (Id req) (fst (AlarmProvider_Unmarshal lib (Olds req)))
                        (fst (AlarmProvider_Unmarshal lib (News req))) (Some d)) = None
            \<longrightarrow> (\<exists>resp. AlarmProvider_InspectChange lib ops req = Inr resp))"
  using assms
  by (auto simp: AlarmProvider_InspectChange_def AlarmProvider_Unmarshal_def Let_def
           split: if_splits prod.splits option.splits)

lemma VPCGatewayAttachmentProvider_InspectChange_name:
  assumes "Diff lib (UnmarshalProperties lib (Olds req)) (UnmarshalProperties lib (News req)) = Some d"
      and "Changed lib d ''name''"
  shows "(\<forall>resp. VPCGatewayAttachmentProvider_InspectChange lib ops req = Inr resp \<longrightarrow>
            ''name'' \<in> set (Replaces resp) \<and>
            Replaces resp = (''name'' # (if Changed lib d ''vpc'' then [''vpc''] else []) @ (if Changed lib d ''internetGateway'' then [''internetGateway''] else []))
               @ fst (ops (Id req) (fst (VPCGatewayAttachmentProvider_Unmarshal lib (Olds req)))
                        (fst (VPCGatewayAttachmentProvider_Unmarshal lib (News req))) (Some d)))
       \<and> (InspectChangeRequest.Type req = VPCGatewayAttachmentToken
            \<and> snd (snd (VPCGatewayAttachmentProvider_Unmarshal lib (Olds req))) = None
            \<and> snd (snd (VPCGatewayAttachmentProvider_Unmarshal lib (News req))) = None
            \<and> snd (ops (Id req) (fst (VPCGatewayAttachmentProvider_Unmarshal lib (Olds req)))
                        (fst (VPCGatewayAttachmentProvider_Unmarshal lib (News req))) (Some d)) = None
            \<longrightarrow> (\<exists>resp. VPCGatewayAttachmentProvider_InspectChange lib ops req = Inr resp))"
  using assms
  by (auto simp: VPCGatewayAttachmentProvider_InspectChange_def VPCGatewayAttachmentProvider_Unmarshal_def Let_def
           split: if_splits prod.splits option.splits)

text \<open>
  Claim C1. For each of the three providers: when the diff of the old and new property
  maps is not nil and \<open>Changed("name")\<close> holds of it, every response \<open>InspectChange\<close>
  returns lists \<open>"name"\<close> among its replacement keys, whatever keys the provider-specific
  callback returns: the response is the structural keys (\<open>"name"\<close> first) followed by the
  callback's keys. A response is returned whenever the request has the provider's type,
  both property sets decode and the callback returns no error.
\<close>

theorem InspectChange_lists_changed_name:
  "(Diff libA (UnmarshalProperties libA (Olds reqA)) (UnmarshalProperties libA (News reqA))
        = Some dA \<and> Changed libA dA ''name'' \<longrightarrow>
      (\<forall>resp. AuthorizerProvider_InspectChange libA opsA reqA = Inr resp \<longrightarrow>
         ''name'' \<in> set (Replaces resp) \<and>
         Replaces resp = [''name'']
            @ fst (opsA (Id reqA) (fst (AuthorizerProvider_Unmarshal libA (Olds reqA)))
                     (fst (AuthorizerProvider_Unmarshal libA (News reqA))) (Some dA)))
      \<and> (InspectChangeRequest.Type reqA = AuthorizerToken
         \<and> snd (snd (AuthorizerProvider_Unmarshal libA (Olds reqA))) = None
         \<and> snd (snd (AuthorizerProvider_Unmarshal libA (News reqA))) = None
         \<and> snd (opsA (Id reqA) (fst (AuthorizerProvider_Unmarshal libA (Olds reqA)))
                     (fst (AuthorizerProvider_Unmarshal libA (News reqA))) (Some dA)) = None
         \<longrightarrow> (\<exists>resp. AuthorizerProvider_InspectChange libA opsA reqA = Inr resp)))
   \<and> (Diff libB (UnmarshalProperties libB (Olds reqB)) (UnmarshalProperties libB (News reqB))
        = Some dB \<and> Changed libB dB ''name'' \<longrightarrow>
      (\<forall>resp. AlarmProvider_InspectChange libB opsB reqB = Inr resp \<longrightarrow>
         ''name'' \<in> set (Replaces resp) \<and>
         Replaces resp = (''name'' # (if Changed libB dB ''alarmName'' then [''alarmName''] else []))
            @ fst (opsB (Id reqB) (fst (AlarmProvider_Unmarshal libB (Olds reqB)))
                     (fst (AlarmProvider_Unmarshal libB (News reqB))) (Some dB)))
      \<and> (InspectChangeRequest.Type reqB = AlarmToken
         \<and> snd (snd (AlarmProvider_Unmarshal libB (Olds reqB))) = None
         \<and> snd (snd (AlarmProvider_Unmarshal libB (News reqB))) = None
         \<and> snd (opsB (Id reqB) (fst (AlarmProvider_Unmarshal libB (Olds reqB)))
                     (fst (AlarmProvider_Unmarshal libB (News reqB))) (Some dB)) = None
         \<longrightarrow> (\<exists>resp. AlarmProvider_InspectChange libB opsB reqB = Inr resp)))
   \<and> (Diff libC (UnmarshalProperties libC (Olds reqC)) (UnmarshalProperties libC (News reqC))
        = Some dC \<and> Changed libC dC ''name'' \<longrightarrow>
      (\<forall>resp. VPCGatewayAttachmentProvider_InspectChange libC opsC reqC = Inr resp \<longrightarrow>
         ''name'' \<in> set (Replaces resp) \<and>
         Replaces resp = (''name'' # (if Changed libC dC ''vpc'' then [''vpc''] else [])
              @ (if Changed libC dC ''internetGateway'' then [''internetGateway''] else []))
            @ fst (opsC (Id reqC) (fst (VPCGatewayAttachmentProvider_Unmarshal libC (Olds reqC)))
                     (fst (VPCGatewayAttachmentProvider_Unmarshal libC (News reqC))) (Some dC)))
      \<and> (InspectChangeRequest.Type reqC = VPCGatewayAttachmentToken
         \<and> snd (snd (VPCGatewayAttachmentProvider_Unmarshal libC (Olds reqC))) = None
         \<and> snd (snd (VPCGatewayAttachmentProvider_Unmarshal libC (News reqC))) = None
         \<and> snd (opsC (Id reqC) (fst (VPCGatewayAttachmentProvider_Unmarshal libC (Olds reqC)))
                     (fst (VPCGatewayAttachmentProvider_Unmarshal libC (News reqC))) (Some dC)) = None
         \<longrightarrow> (\<exists>resp. VPCGatewayAttachmentProvider_InspectChange libC opsC reqC = Inr resp)))"
  using AuthorizerProvider_InspectChange_name [of libA reqA dA opsA]
        AlarmProvider_InspectChange_name [of libB reqB dB opsB]
        VPCGatewayAttachmentProvider_InspectChange_name [of libC reqC dC opsC]
  by blast

lemma InspectChangeResponse_eq: "(r = \<lparr>Replaces = x\<rparr>) = (Replaces r = x)"
  by (cases r) simp

theorem InspectChange_lists_changed_name_witness:
  "AuthorizerProvider_InspectChange (example_lib example_Authorizer) example_ops
       \<lparr>InspectChangeRequest.Type = AuthorizerToken, Id = ''a-1'',
        Olds = [(''name'', ''first'')],
        News = [(''name'', ''second'')]\<rparr>
     = Inr \<lparr>Replaces = [''name'', ''restAPI'']\<rparr>
   \<and> AlarmProvider_InspectChange (example_lib example_Alarm) example_ops
       \<lparr>InspectChangeRequest.Type = AlarmToken, Id = ''b-1'',
        Olds = [(''name'', ''first''), (''alarmName'', ''x'')],
        News = [(''name'', ''second''), (''alarmName'', ''y'')]\<rparr>
     = Inr \<lparr>Replaces = [''name'', ''alarmName'', ''restAPI'']\<rparr>
   \<and> VPCGatewayAttachmentProvider_InspectChange (example_lib example_VPCGatewayAttachment) example_ops
       \<lparr>InspectChangeRequest.Type = VPCGatewayAttachmentToken, Id = ''c-1'',
        Olds = [(''name'', ''first''), (''vpc'', ''v'')],
        News = [(''name'', ''second''), (''vpc'', ''v'')]\<rparr>
     = Inr \<lparr>Replaces = [''name'', ''restAPI'']\<rparr>"
proof -
  let ?libA = "example_lib example_Authorizer
    :: (example_props, example_props, example_props \<times> example_props, Authorizer) resource_lib"
  let ?reqA = "\<lparr>InspectChangeRequest.Type = AuthorizerToken, Id = ''a-1'',
        Olds = [(''name'', ''first'')],
        News = [(''name'', ''second'')]\<rparr>"
  let ?dA = "([(''name'', ''first'')], [(''name'', ''second'')])"
  let ?libB = "example_lib example_Alarm
    :: (example_props, example_props, example_props \<times> example_props, Alarm) resource_lib"
  let ?reqB = "\<lparr>InspectChangeRequest.Type = AlarmToken, Id = ''b-1'',
        Olds = [(''name'', ''first''), (''alarmName'', ''x'')],
        News = [(''name'', ''second''), (''alarmName'', ''y'')]\<rparr>"
  let ?dB = "([(''name'', ''first''), (''alarmName'', ''x'')], [(''name'', ''second''), (''alarmName'', ''y'')])"
  let ?libC = "example_lib example_VPCGatewayAttachment
    :: (example_props, example_props, example_props \<times> example_props, VPCGatewayAttachment) resource_lib"
  let ?reqC = "\<lparr>InspectChangeRequest.Type = VPCGatewayAttachmentToken, Id = ''c-1'',
        Olds = [(''name'', ''first''), (''vpc'', ''v'')],
        News = [(''name'', ''second''), (''vpc'', ''v'')]\<rparr>"
  let ?dC = "([(''name'', ''first''), (''vpc'', ''v'')], [(''name'', ''second''), (''vpc'', ''v'')])"
  note claim = InspectChange_lists_changed_name
    [of ?libA ?reqA ?dA example_ops ?libB ?reqB ?dB example_ops ?libC ?reqC ?dC example_ops]
  have diffA: "Diff ?libA (UnmarshalProperties ?libA (Olds ?reqA))
             (UnmarshalProperties ?libA (News ?reqA)) = Some ?dA
           \<and> Changed ?libA ?dA ''name''"
    by (simp add: example_lib_def example_Diff_def example_Changed_def)
  have okA: "InspectChangeRequest.Type ?reqA = AuthorizerToken
         \<and> snd (snd (AuthorizerProvider_Unmarshal ?libA (Olds ?reqA))) = None
         \<and> snd (snd (AuthorizerProvider_Unmarshal ?libA (News ?reqA))) = None
         \<and> snd (example_ops (Id ?reqA) (fst (AuthorizerProvider_Unmarshal ?libA (Olds ?reqA)))
                  (fst (AuthorizerProvider_Unmarshal ?libA (News ?reqA))) (Some ?dA)) = None"
    by (simp add: example_decerr_def example_ops_def)
  from claim [THEN conjunct1, rule_format, OF diffA] okA
  obtain respA where rA: "AuthorizerProvider_InspectChange ?libA example_ops ?reqA = Inr respA"
    by blast
  from claim [THEN conjunct1, rule_format, OF diffA] rA
  have "Replaces respA = [''name'', ''restAPI'']"
    by (simp add: example_ops_def example_lib_def example_Changed_def)
  with rA have resA: "AuthorizerProvider_InspectChange ?libA example_ops ?reqA
      = Inr \<lparr>Replaces = [''name'', ''restAPI'']\<rparr>"
    by (simp add: InspectChangeResponse_eq)
  have diffB: "Diff ?libB (UnmarshalProperties ?libB (Olds ?reqB))
             (UnmarshalProperties ?libB (News ?reqB)) = Some ?dB
           \<and> Changed ?libB ?dB ''name''"
    by (simp add: example_lib_def example_Diff_def example_Changed_def)
  have okB: "InspectChangeRequest.Type ?reqB = AlarmToken
         \<and> snd (snd (AlarmProvider_Unmarshal ?libB (Olds ?reqB))) = None
         \<and> snd (snd (AlarmProvider_Unmarshal ?libB (News ?reqB))) = None
         \<and> snd (example_ops (Id ?reqB) (fst (AlarmProvider_Unmarshal ?libB (Olds ?reqB)))
                  (fst (AlarmProvider_Unmarshal ?libB (News ?reqB))) (Some ?dB)) = None"
    by (simp add: example_decerr_def example_ops_def)
  from claim [THEN conjunct2, THEN conjunct1, rule_format, OF diffB] okB
  obtain respB where rB: "AlarmProvider_InspectChange ?libB example_ops ?reqB = Inr respB"
    by blast
  from claim [THEN conjunct2, THEN conjunct1, rule_format, OF diffB] rB
  have "Replaces respB = [''name'', ''alarmName'', ''restAPI'']"
    by (simp add: example_ops_def example_lib_def example_Changed_def)
  with rB have resB: "AlarmProvider_InspectChange ?libB example_ops ?reqB
      = Inr \<lparr>Replaces = [''name'', ''alarmName'', ''restAPI'']\<rparr>"
    by (simp add: InspectChangeResponse_eq)
  have diffC: "Diff ?libC (UnmarshalProperties ?libC (Olds ?reqC))
             (UnmarshalProperties ?libC (News ?reqC)) = Some ?dC
           \<and> Changed ?libC ?dC ''name''"
    by (simp add: example_lib_def example_Diff_def example_Changed_def)
  have okC: "InspectChangeRequest.Type ?reqC = VPCGatewayAttachmentToken
         \<and> snd (snd (VPCGatewayAttachmentProvider_Unmarshal ?libC (Olds ?reqC))) = None
         \<and> snd (snd (VPCGatewayAttachmentProvider_Unmarshal ?libC (News ?reqC))) = None
         \<and> snd (example_ops (Id ?reqC) (fst (VPCGatewayAttachmentProvider_Unmarshal ?libC (Olds ?reqC)))
                  (fst (VPCGatewayAttachmentProvider_Unmarshal ?libC (News ?reqC))) (Some ?dC)) = None"
    by (simp add: example_decerr_def example_ops_def)
  from claim [THEN conjunct2, THEN conjunct2, rule_format, OF diffC] okC
  obtain respC where rC: "VPCGatewayAttachmentProvider_InspectChange ?libC example_ops ?reqC = Inr respC"
    by blast
  from claim [THEN conjunct2, THEN conjunct2, rule_format, OF diffC] rC
  have "Replaces respC = [''name'', ''restAPI'']"
    by (simp add: example_ops_def example_lib_def example_Changed_def)
  with rC have resC: "VPCGatewayAttachmentProvider_InspectChange ?libC example_ops ?reqC
      = Inr \<lparr>Replaces = [''name'', ''restAPI'']\<rparr>"
    by (simp add: InspectChangeResponse_eq)
  from resA resB resC show ?thesis by (intro conjI)
qed

section \<open>Properties of the progress tracker\<close>

lemma After_MaybeCorrupt:
  assumes "After step state err (prog, w) = Inr (prog', w')"
  shows "MaybeCorrupt prog' = (MaybeCorrupt prog \<or> (err \<noteq> None \<and> state = StateUnknown))"
  using assms
  by (auto simp: After_def Let_def split: option.splits State.splits)

lemma After_returns:
  "(\<exists>pw'. After step state err pw = Inr pw') = (err = None \<or> (\<forall>n. state \<noteq> StateUnrecognized n))"
  by (cases pw; cases err; cases state) (simp_all add: After_def Let_def)

lemma After_sequence_MaybeCorrupt:
  assumes "After_sequence cbs (prog, w) = Inr (prog', w')"
  shows "MaybeCorrupt prog' =
           (MaybeCorrupt prog \<or> (\<exists>step err. (step, StateUnknown, Some err) \<in> set cbs))"
  using assms
proof (induction cbs arbitrary: prog w)
  case Nil
  then show ?case by simp
next
  case (Cons cb cbs)
  obtain step state err where cb: "cb = (step, state, err)"
    by (cases cb)
  from Cons.prems cb obtain prog1 w1
    where first: "After step state err (prog, w) = Inr (prog1, w1)"
      and rest: "After_sequence cbs (prog1, w1) = Inr (prog', w')"
    by (auto split: sum.splits)
  from Cons.IH [OF rest] After_MaybeCorrupt [OF first] cb
  show ?case by auto
qed

lemma After_sequence_returns:
  assumes "\<forall>step n err. (step, StateUnrecognized n, Some err) \<notin> set cbs"
  shows "\<exists>pw'. After_sequence cbs pw = Inr pw'"
  using assms
proof (induction cbs arbitrary: pw)
  case Nil
  then show ?case by simp
next
  case (Cons cb cbs)
  obtain step state err where cb: "cb = (step, state, err)"
    by (cases cb)
  from Cons.prems cb have "err = None \<or> (\<forall>n. state \<noteq> StateUnrecognized n)"
    by (cases err) auto
  then obtain pw1 where first: "After step state err pw = Inr pw1"
    using After_returns [of step state err pw] by blast
  from Cons.prems have "\<forall>step n err. (step, StateUnrecognized n, Some err) \<notin> set cbs"
    by auto
  from Cons.IH [OF this, of pw1] first cb show ?case
    by simp
qed

text \<open>
  Claim C2. For every sequence of \<open>After\<close> callbacks on an accumulator: when the sequence
  returns, \<open>MaybeCorrupt\<close> holds afterwards exactly when it held before or some callback of
  the sequence reported an error with state \<open>Unknown\<close>. Applied to each prefix of a
  sequence, this says that the flag is set by the first such callback, is never cleared by
  a later one, and is set by no callback with a nil error or with state \<open>OK\<close>. A new
  accumulator starts with the flag cleared, and the sequence returns whenever no callback
  reports an error with a state other than \<open>OK\<close> and \<open>Unknown\<close>.
\<close>

theorem MaybeCorrupt_is_sticky:
  "(After_sequence cbs (prog, w) = Inr (prog', w') \<longrightarrow>
      MaybeCorrupt prog' =
        (MaybeCorrupt prog \<or> (\<exists>step err. (step, StateUnknown, Some err) \<in> set cbs)))
   \<and> \<not> MaybeCorrupt (newProgress summary)
   \<and> ((\<forall>step n err. (step, StateUnrecognized n, Some err) \<notin> set cbs) \<longrightarrow>
        (\<exists>pw'. After_sequence cbs (prog, w) = Inr pw'))"
  using After_sequence_MaybeCorrupt [of cbs prog w prog' w']
        After_sequence_returns [of cbs "(prog, w)"]
  by (simp add: newProgress_def)

theorem MaybeCorrupt_is_sticky_witness:
  "\<exists>prog' w'. After_sequence example_callbacks (newProgress False, example_world) = Inr (prog', w')
      \<and> MaybeCorrupt prog'"
proof -
  have "\<forall>step n err. (step, StateUnrecognized n, Some err) \<notin> set example_callbacks"
    by (simp add: example_callbacks_def)
  with MaybeCorrupt_is_sticky [of example_callbacks "newProgress False" example_world]
  obtain prog' w'
    where run: "After_sequence example_callbacks (newProgress False, example_world) = Inr (prog', w')"
    by fastforce
  have "(\<lparr>Op = OpDelete\<rparr>, StateUnknown, Some (errors_New ''connection lost''))
          \<in> set example_callbacks"
    by (simp add: example_callbacks_def)
  with MaybeCorrupt_is_sticky [of example_callbacks "newProgress False" example_world prog' w'] run
  have "MaybeCorrupt prog'" by blast
  with run show ?thesis by blast
qed

section \<open>Properties of the summary\<close>

lemma UNIV_StepOp:
  "(UNIV :: StepOp set) = {OpSame, OpCreate, OpUpdate, OpDelete, OpReplace, OpReplaceCreate, OpReplaceDelete}"
proof -
  have "x \<in> {OpSame, OpCreate, OpUpdate, OpDelete, OpReplace, OpReplaceCreate, OpReplaceDelete}" for x
    by (cases x) simp_all
  then show ?thesis by blast
qed

lemma finite_StepOp [simp]: "finite (A :: StepOp set)"
proof (rule finite_subset [OF subset_UNIV])
  show "finite (UNIV :: StepOp set)" by (simp add: UNIV_StepOp)
qed

subsection \<open>Wrapping\<close>

lemma int_wrap_in_range:
  assumes "- (2 ^ 63) \<le> i" and "i < 2 ^ 63"
  shows "int_wrap i = i"
proof -
  from assms have "0 \<le> i + 2 ^ 63" and "i + 2 ^ 63 < 2 ^ 64"
    by simp_all
  then have "(i + 2 ^ 63) mod 2 ^ 64 = i + 2 ^ 63"
    by (rule mod_pos_pos_trivial)
  then show ?thesis
    by (simp add: int_wrap_def)
qed

lemma int_wrap_add: "int_wrap (int_wrap a + b) = int_wrap (a + b)"
proof -
  have e1: "int_wrap a + b + 2 ^ 63 = (a + 2 ^ 63) mod 2 ^ 64 + b"
    by (simp add: int_wrap_def)
  have e2: "((a + 2 ^ 63) mod 2 ^ 64 + b) mod 2 ^ 64 = (a + 2 ^ 63 + b) mod (2 ^ 64 :: int)"
    by (rule mod_add_left_eq)
  have e3: "a + 2 ^ 63 + b = a + b + (2 ^ 63 :: int)"
    by simp
  have "int_wrap (int_wrap a + b) = (int_wrap a + b + 2 ^ 63) mod 2 ^ 64 - 2 ^ 63"
    by (rule int_wrap_def)
  also have "\<dots> = ((a + 2 ^ 63) mod 2 ^ 64 + b) mod 2 ^ 64 - 2 ^ 63"
    by (simp only: e1)
  also have "\<dots> = (a + 2 ^ 63 + b) mod 2 ^ 64 - 2 ^ 63"
    by (simp only: e2)
  also have "\<dots> = (a + b + 2 ^ 63) mod 2 ^ 64 - 2 ^ 63"
    by (simp only: e3)
  also have "\<dots> = int_wrap (a + b)"
    by (rule int_wrap_def [symmetric])
  finally show ?thesis .
qed

text \<open>
  The total of the loop, wrapping at every addition and traversing the entries in any
  order \<open>cs\<close>, is the sum of the entries wrapped once.
\<close>

lemma total_loop_wraps_once:
  "foldl (\<lambda>total c. int_wrap (total + c)) (int_wrap t) cs = int_wrap (t + sum_list cs)"
proof (induction cs arbitrary: t)
  case Nil
  then show ?case by simp
next
  case (Cons c cs)
  have "foldl (\<lambda>total c. int_wrap (total + c)) (int_wrap t) (c # cs)
          = foldl (\<lambda>total c. int_wrap (total + c)) (int_wrap (t + c)) cs"
    by (simp add: int_wrap_add)
  also have "\<dots> = int_wrap (t + c + sum_list cs)"
    by (rule Cons.IH)
  finally show ?case by (simp add: add.assoc)
qed

subsection \<open>The map that counting builds\<close>

lemma count_steps_index:
  assumes "\<forall>op. 0 \<le> counts_index counts op"
      and "\<forall>op. counts_index counts op + int (length steps) < 2 ^ 63"
  shows "counts_index (count_steps steps counts) op
           = counts_index counts op + int (count_list (map Op steps) op)"
  using assms
proof (induction steps arbitrary: counts)
  case Nil
  then show ?case by simp
next
  case (Cons step steps)
  let ?c = "counts_index counts (Op step) + 1"
  let ?counts = "counts(Op step \<mapsto> int_wrap ?c)"
  from Cons.prems have "0 \<le> counts_index counts (Op step)"
    and "counts_index counts (Op step) + int (length (step # steps)) < 2 ^ 63"
    by blast+
  then have "- (2 ^ 63) \<le> ?c" and "?c < 2 ^ 63"
    by simp_all
  then have wrap: "int_wrap ?c = ?c"
    by (rule int_wrap_in_range)
  have index: "counts_index ?counts op' =
                 counts_index counts op' + (if op' = Op step then 1 else 0)" for op'
    by (simp add: counts_index_def wrap [unfolded counts_index_def])
  have nonneg: "\<forall>op. 0 \<le> counts_index ?counts op"
  proof
    fix op'
    from Cons.prems(1) have "0 \<le> counts_index counts op'" by blast
    then show "0 \<le> counts_index ?counts op'" by (simp add: index)
  qed
  have bound: "\<forall>op. counts_index ?counts op + int (length steps) < 2 ^ 63"
  proof
    fix op'
    from Cons.prems(2) have "counts_index counts op' + int (length (step # steps)) < 2 ^ 63"
      by blast
    then show "counts_index ?counts op' + int (length steps) < 2 ^ 63" by (auto simp: index)
  qed
  have "counts_index (count_steps (step # steps) counts) op
          = counts_index (count_steps steps ?counts) op"
    by simp
  also have "\<dots> = counts_index ?counts op + int (count_list (map Op steps) op)"
    by (rule Cons.IH [OF nonneg bound])
  also have "\<dots> = counts_index counts op + (if op = Op step then 1 else 0)
                    + int (count_list (map Op steps) op)"
    by (simp only: index)
  also have "\<dots> = counts_index counts op + int (count_list (map Op (step # steps)) op)"
    by auto
  finally show ?case .
qed

lemma count_steps_empty:
  assumes "int (length steps) < 2 ^ 63"
  shows "counts_index (count_steps steps Map.empty) op = int (count_list (map Op steps) op)"
  using count_steps_index [of Map.empty steps op] assms
  by (simp add: counts_index_def)

lemma count_list_filter:
  "count_list (filter P xs) x = (if P x then count_list xs x else 0)"
  by (induction xs) auto

lemma sum_count_list_StepOp:
  "(\<Sum>op \<in> UNIV. int (count_list ops op)) = int (length ops)" for ops :: "StepOp list"
proof -
  have "sum (count_list ops) UNIV = length ops"
    by (rule sum_count_set) simp_all
  then have "int (sum (count_list ops) UNIV) = int (length ops)"
    by simp
  then show ?thesis
    by simp
qed

subsection \<open>The total and the lines\<close>

lemma summary_total_UNIV:
  "summary_total counts showReplaceSteps =
     int_wrap (\<Sum>op \<in> UNIV. if \<not> showReplaceSteps \<and> (op = OpReplaceCreate \<or> op = OpReplaceDelete) then 0 else counts_index counts op)"
proof -
  have "(\<Sum>op \<in> dom counts. if \<not> showReplaceSteps \<and> (op = OpReplaceCreate \<or> op = OpReplaceDelete) then 0 else counts_index counts op)
      = (\<Sum>op \<in> UNIV. if \<not> showReplaceSteps \<and> (op = OpReplaceCreate \<or> op = OpReplaceDelete) then 0 else counts_index counts op)"
    by (rule sum.mono_neutral_left) (auto simp: counts_index_def split: option.splits)
  then show ?thesis
    by (simp add: summary_total_def)
qed

lemma shown_count_summary_lines:
  "sum_list (map shown_count (summary_lines ops counts showReplaceSteps planTo pastTense)) =
     sum_list (map (\<lambda>op. if \<not> showReplaceSteps \<and> (op = OpReplaceCreate \<or> op = OpReplaceDelete) then 0
                          else if counts_index counts op > 0 then counts_index counts op else 0) ops)"
  by (induction ops) auto

lemma shown_total_summary_lines:
  "sum_list (map shown_total (summary_lines ops counts showReplaceSteps planTo pastTense)) = 0"
  by (induction ops) auto

lemma shown_op_summary_lines:
  "l \<in> set (summary_lines ops counts showReplaceSteps planTo pastTense) \<Longrightarrow>
     \<exists>op. shown_op l = Some op \<and> op \<in> set ops \<and> shown_count l = counts_index counts op \<and> 0 < shown_count l
        \<and> (showReplaceSteps \<or> (op \<noteq> OpReplaceCreate \<and> op \<noteq> OpReplaceDelete))"
  by (induction ops) (auto split: if_splits)

lemma printSummary_shown_total:
  "sum_list (map shown_total (printSummary stepOps b counts showReplaceSteps isplan)) =
     sum_list (map shown_total b) + summary_total counts showReplaceSteps"
  by (simp add: printSummary_def Let_def shown_total_summary_lines)

lemma printSummary_shown_count:
  "sum_list (map shown_count (printSummary stepOps b counts showReplaceSteps isplan)) =
     sum_list (map shown_count b) +
     sum_list (map (\<lambda>op. if \<not> showReplaceSteps \<and> (op = OpReplaceCreate \<or> op = OpReplaceDelete) then 0
                          else if counts_index counts op > 0 then counts_index counts op else 0) stepOps)"
  by (simp add: printSummary_def Let_def shown_count_summary_lines)

lemma sum_eq_counts:
  assumes d: "distinct stepOps"
      and nonneg: "\<forall>op. 0 \<le> counts_index counts op"
      and listed: "\<forall>op. counts_index counts op \<noteq> 0
                     \<and> (showReplaceSteps \<or> (op \<noteq> OpReplaceCreate \<and> op \<noteq> OpReplaceDelete))
                     \<longrightarrow> op \<in> set stepOps"
  shows "(\<Sum>op \<in> UNIV. if \<not> showReplaceSteps \<and> (op = OpReplaceCreate \<or> op = OpReplaceDelete) then 0 else counts_index counts op) =
     sum_list (map (\<lambda>op. if \<not> showReplaceSteps \<and> (op = OpReplaceCreate \<or> op = OpReplaceDelete) then 0
                          else if counts_index counts op > 0 then counts_index counts op else 0) stepOps)"
proof -
  let ?g = "\<lambda>op. if \<not> showReplaceSteps \<and> (op = OpReplaceCreate \<or> op = OpReplaceDelete) then 0 else counts_index counts op"
  let ?f = "\<lambda>op. if \<not> showReplaceSteps \<and> (op = OpReplaceCreate \<or> op = OpReplaceDelete) then 0
                          else if counts_index counts op > 0 then counts_index counts op else 0"
  have fg: "?f op = ?g op" for op
  proof -
    from nonneg have "0 \<le> counts_index counts op" by blast
    then show ?thesis by auto
  qed
  have "sum_list (map ?f stepOps) = sum ?f (set stepOps)"
    using d by (simp add: sum_list_distinct_conv_sum_set)
  also have "\<dots> = sum ?f UNIV"
  proof (rule sum.mono_neutral_left)
    show "\<forall>op \<in> UNIV - set stepOps. ?f op = 0"
    proof
      fix op
      assume "op \<in> UNIV - set stepOps"
      then have "op \<notin> set stepOps" by simp
      with listed have "counts_index counts op = 0
          \<or> \<not> (showReplaceSteps \<or> (op \<noteq> OpReplaceCreate \<and> op \<noteq> OpReplaceDelete))"
        by blast
      then show "?f op = 0" by auto
    qed
  qed simp_all
  also have "\<dots> = sum ?g UNIV"
    by (rule sum.cong) (simp_all only: fg)
  finally show ?thesis
    by simp
qed

lemma kept_steps_total:
  "(\<Sum>op \<in> UNIV. if \<not> showReplaceSteps \<and> (op = OpReplaceCreate \<or> op = OpReplaceDelete) then 0
                   else int (count_list (map Op steps) op))
     = int (length (filter (\<lambda>step. showReplaceSteps
                \<or> (Op step \<noteq> OpReplaceCreate \<and> Op step \<noteq> OpReplaceDelete)) steps))"
proof -
  let ?keep = "\<lambda>op. showReplaceSteps \<or> (op \<noteq> OpReplaceCreate \<and> op \<noteq> OpReplaceDelete)"
  have "(\<Sum>op \<in> UNIV. if \<not> showReplaceSteps \<and> (op = OpReplaceCreate \<or> op = OpReplaceDelete) then 0
                   else int (count_list (map Op steps) op))
        = (\<Sum>op \<in> UNIV. int (count_list (filter ?keep (map Op steps)) op))"
    by (rule sum.cong) (auto simp: count_list_filter)
  also have "\<dots> = int (length (filter ?keep (map Op steps)))"
    by (rule sum_count_list_StepOp)
  also have "\<dots> = int (length (filter (\<lambda>step. ?keep (Op step)) steps))"
    by (simp add: filter_map comp_def)
  finally show ?thesis .
qed

subsection \<open>The map that \<open>After\<close> builds\<close>

lemma After_Ops:
  assumes "After step state err (prog, w) = Inr (prog', w')"
  shows "Ops prog' =
           (if err = None then (Ops prog)(Op step \<mapsto> counts_index (Ops prog) (Op step) + 1)
            else Ops prog)"
  using assms
  by (auto simp: After_def Let_def split: option.splits State.splits)

lemma After_sequence_Ops:
  assumes "After_sequence cbs (prog, w) = Inr (prog', w')"
      and "\<forall>op. 0 \<le> counts_index (Ops prog) op"
      and "\<forall>op. counts_index (Ops prog) op + int (length cbs) < 2 ^ 63"
  shows "Ops prog' = count_steps [step. (step, state, err) \<leftarrow> cbs, err = None] (Ops prog)"
  using assms
proof (induction cbs arbitrary: prog w)
  case Nil
  then show ?case by simp
next
  case (Cons cb cbs)
  obtain step state err where cb: "cb = (step, state, err)"
    by (cases cb)
  from Cons.prems(1) cb obtain prog1 w1
    where first: "After step state err (prog, w) = Inr (prog1, w1)"
      and rest: "After_sequence cbs (prog1, w1) = Inr (prog', w')"
    by (auto split: sum.splits)
  let ?c = "counts_index (Ops prog) (Op step) + 1"
  from Cons.prems(2,3) have "0 \<le> counts_index (Ops prog) (Op step)"
    and "counts_index (Ops prog) (Op step) + int (length (cb # cbs)) < 2 ^ 63"
    by blast+
  then have "- (2 ^ 63) \<le> ?c" and "?c < 2 ^ 63"
    by simp_all
  then have wrap: "int_wrap ?c = ?c"
    by (rule int_wrap_in_range)
  have index: "counts_index (Ops prog1) op =
                 counts_index (Ops prog) op + (if err = None \<and> op = Op step then 1 else 0)" for op
    by (simp add: After_Ops [OF first] counts_index_def)
  have nonneg: "\<forall>op. 0 \<le> counts_index (Ops prog1) op"
  proof
    fix op
    from Cons.prems(2) have "0 \<le> counts_index (Ops prog) op" by blast
    then show "0 \<le> counts_index (Ops prog1) op" by (simp add: index)
  qed
  have bound: "\<forall>op. counts_index (Ops prog1) op + int (length cbs) < 2 ^ 63"
  proof
    fix op
    from Cons.prems(3) have "counts_index (Ops prog) op + int (length (cb # cbs)) < 2 ^ 63"
      by blast
    then show "counts_index (Ops prog1) op + int (length cbs) < 2 ^ 63" by (auto simp: index)
  qed
  have "Ops prog' = count_steps [step. (step, state, err) \<leftarrow> cbs, err = None] (Ops prog1)"
    by (rule Cons.IH [OF rest nonneg bound])
  also have "\<dots> = count_steps [step. (step, state, err) \<leftarrow> cb # cbs, err = None] (Ops prog)"
    by (simp add: cb After_Ops [OF first] wrap)
  finally show ?case .
qed

lemma After_sequence_new_Ops:
  assumes "After_sequence cbs (newProgress summary, w) = Inr (prog', w')"
      and "length cbs < 2 ^ 63"
  shows "Ops prog' = count_steps [step. (step, state, err) \<leftarrow> cbs, err = None] Map.empty"
proof -
  have "int (length cbs) < int (2 ^ 63)"
    using assms(2) by (simp only: of_nat_less_iff)
  then have "int (length cbs) < 2 ^ 63"
    by simp
  then have "\<forall>op. counts_index (Ops (newProgress summary)) op + int (length cbs) < 2 ^ 63"
    by (simp add: newProgress_def counts_index_def)
  moreover have "\<forall>op. 0 \<le> counts_index (Ops (newProgress summary)) op"
    by (simp add: newProgress_def counts_index_def)
  ultimately have "Ops prog' =
      count_steps [step. (step, state, err) \<leftarrow> cbs, err = None] (Ops (newProgress summary))"
    using After_sequence_Ops [OF assms(1)] by blast
  then show ?thesis
    by (simp add: newProgress_def)
qed

subsection \<open>The summary of counted steps\<close>

lemma summary_of_counted_steps:
  assumes len: "length steps < 2 ^ 63"
      and d: "distinct stepOps"
      and listed: "\<forall>step \<in> set steps.
             showReplaceSteps \<or> (Op step \<noteq> OpReplaceCreate \<and> Op step \<noteq> OpReplaceDelete)
             \<longrightarrow> Op step \<in> set stepOps"
  shows "sum_list (map shown_total
            (printSummary stepOps [] (count_steps steps Map.empty) showReplaceSteps isplan))
           = sum_list (map shown_count
               (printSummary stepOps [] (count_steps steps Map.empty) showReplaceSteps isplan))"
    and "sum_list (map shown_total
            (printSummary stepOps [] (count_steps steps Map.empty) showReplaceSteps isplan))
           = int (length (filter (\<lambda>step. showReplaceSteps
                 \<or> (Op step \<noteq> OpReplaceCreate \<and> Op step \<noteq> OpReplaceDelete)) steps))"
    and "\<forall>l \<in> set (printSummary stepOps [] (count_steps steps Map.empty) showReplaceSteps isplan).
           \<forall>op. shown_op l = Some op \<longrightarrow>
             shown_count l = int (count_list (map Op steps) op)
             \<and> (showReplaceSteps \<or> (op \<noteq> OpReplaceCreate \<and> op \<noteq> OpReplaceDelete))"
proof -
  let ?counts = "count_steps steps Map.empty"
  let ?kept = "filter (\<lambda>step. showReplaceSteps
                 \<or> (Op step \<noteq> OpReplaceCreate \<and> Op step \<noteq> OpReplaceDelete)) steps"
  have "int (length steps) < int (2 ^ 63)"
    using len by (simp only: of_nat_less_iff)
  then have len': "int (length steps) < 2 ^ 63"
    by simp
  have index: "counts_index ?counts op = int (count_list (map Op steps) op)" for op
    by (rule count_steps_empty [OF len'])
  have nonneg: "\<forall>op. 0 \<le> counts_index ?counts op"
    by (simp add: index)
  have listed': "\<forall>op. counts_index ?counts op \<noteq> 0
                     \<and> (showReplaceSteps \<or> (op \<noteq> OpReplaceCreate \<and> op \<noteq> OpReplaceDelete))
                     \<longrightarrow> op \<in> set stepOps"
  proof (intro allI impI)
    fix op
    assume a: "counts_index ?counts op \<noteq> 0
                 \<and> (showReplaceSteps \<or> (op \<noteq> OpReplaceCreate \<and> op \<noteq> OpReplaceDelete))"
    then have "count_list (map Op steps) op \<noteq> 0"
      by (simp add: index)
    then have "op \<in> set (map Op steps)"
      by (metis count_notin)
    then obtain step where "step \<in> set steps" and "Op step = op"
      by auto
    with listed a show "op \<in> set stepOps"
      by blast
  qed
  have sum: "(\<Sum>op \<in> UNIV. if \<not> showReplaceSteps \<and> (op = OpReplaceCreate \<or> op = OpReplaceDelete) then 0
                             else counts_index ?counts op) = int (length ?kept)"
    by (simp only: index kept_steps_total)
  have le: "int (length ?kept) \<le> int (length steps)"
    by simp
  have lower: "- (2 ^ 63) \<le> int (length ?kept)"
    by simp
  from le len' have upper: "int (length ?kept) < 2 ^ 63"
    by (rule le_less_trans)
  from lower upper have "int_wrap (int (length ?kept)) = int (length ?kept)"
    by (rule int_wrap_in_range)
  with sum have total: "summary_total ?counts showReplaceSteps = int (length ?kept)"
    by (simp only: summary_total_UNIV)
  show "sum_list (map shown_total (printSummary stepOps [] ?counts showReplaceSteps isplan))
          = int (length ?kept)"
    by (simp add: printSummary_shown_total total)
  show "sum_list (map shown_total (printSummary stepOps [] ?counts showReplaceSteps isplan))
          = sum_list (map shown_count (printSummary stepOps [] ?counts showReplaceSteps isplan))"
    using sum_eq_counts [OF d nonneg listed'] sum
    by (simp add: printSummary_shown_total printSummary_shown_count total)
  show "\<forall>l \<in> set (printSummary stepOps [] ?counts showReplaceSteps isplan).
          \<forall>op. shown_op l = Some op \<longrightarrow>
            shown_count l = int (count_list (map Op steps) op)
            \<and> (showReplaceSteps \<or> (op \<noteq> OpReplaceCreate \<and> op \<noteq> OpReplaceDelete))"
    by (auto simp: printSummary_def Let_def index [symmetric] dest: shown_op_summary_lines)
qed

text \<open>
  Claim C8. The op-count maps \<open>printSummary\<close> is given are the two that counting builds:
  the map \<open>printPlan\<close> fills by \<open>counts[step.Op()]++\<close> over the steps of the plan, and the
  map \<open>progress.Ops\<close> that \<open>After\<close> fills in the same way for the steps that complete. For
  each of them, for a plan of fewer than \<open>2 ^ 63\<close> steps and a \<open>StepOps()\<close> table that lists
  every operation once (it is enough that it lists the operations of the counted steps;
  \<open>ReplaceCreate\<close> and \<open>ReplaceDelete\<close> need not be listed when they are not shown): the
  total \<open>printSummary\<close> reports is the sum of the per-operation counts it displays. The
  total is the number of counted steps, without the \<open>ReplaceCreate\<close> and \<open>ReplaceDelete\<close>
  steps unless \<open>showReplaceSteps\<close> is set, and every operation line shows the number of
  steps of its operation and is for neither of the two unless \<open>showReplaceSteps\<close> is set.
\<close>

theorem printSummary_total_is_sum_of_shown_counts:
  "(length steps < 2 ^ 63 \<and> distinct stepOps
      \<and> (\<forall>step \<in> set steps.
            showReplaceSteps \<or> (Op step \<noteq> OpReplaceCreate \<and> Op step \<noteq> OpReplaceDelete)
            \<longrightarrow> Op step \<in> set stepOps) \<longrightarrow>
      sum_list (map shown_total
         (printSummary stepOps [] (count_steps steps Map.empty) showReplaceSteps isplan))
        = sum_list (map shown_count
            (printSummary stepOps [] (count_steps steps Map.empty) showReplaceSteps isplan))
      \<and> sum_list (map shown_total
           (printSummary stepOps [] (count_steps steps Map.empty) showReplaceSteps isplan))
        = int (length (filter (\<lambda>step. showReplaceSteps
                 \<or> (Op step \<noteq> OpReplaceCreate \<and> Op step \<noteq> OpReplaceDelete)) steps))
      \<and> (\<forall>l \<in> set (printSummary stepOps [] (count_steps steps Map.empty) showReplaceSteps
                       isplan).
            \<forall>op. shown_op l = Some op \<longrightarrow>
              shown_count l = int (count_list (map Op steps) op)
              \<and> (showReplaceSteps \<or> (op \<noteq> OpReplaceCreate \<and> op \<noteq> OpReplaceDelete))))
   \<and> (After_sequence cbs (newProgress summary, w) = Inr (prog', w')
      \<and> length cbs < 2 ^ 63 \<and> distinct stepOps
      \<and> (\<forall>cb \<in> set cbs.
            snd (snd cb) = None
            \<and> (showReplaceSteps
                \<or> (Op (fst cb) \<noteq> OpReplaceCreate \<and> Op (fst cb) \<noteq> OpReplaceDelete))
            \<longrightarrow> Op (fst cb) \<in> set stepOps) \<longrightarrow>
      sum_list (map shown_total (printSummary stepOps [] (Ops prog') showReplaceSteps isplan))
        = sum_list (map shown_count
            (printSummary stepOps [] (Ops prog') showReplaceSteps isplan))
      \<and> sum_list (map shown_total (printSummary stepOps [] (Ops prog') showReplaceSteps isplan))
        = int (length (filter (\<lambda>cb. snd (snd cb) = None
                 \<and> (showReplaceSteps
                     \<or> (Op (fst cb) \<noteq> OpReplaceCreate \<and> Op (fst cb) \<noteq> OpReplaceDelete)))
               cbs)))"
proof (intro conjI impI)
  assume a: "length steps < 2 ^ 63 \<and> distinct stepOps
      \<and> (\<forall>step \<in> set steps.
            showReplaceSteps \<or> (Op step \<noteq> OpReplaceCreate \<and> Op step \<noteq> OpReplaceDelete)
            \<longrightarrow> Op step \<in> set stepOps)"
  then have len: "length steps < 2 ^ 63" and d: "distinct stepOps"
    and listed: "\<forall>step \<in> set steps.
            showReplaceSteps \<or> (Op step \<noteq> OpReplaceCreate \<and> Op step \<noteq> OpReplaceDelete)
            \<longrightarrow> Op step \<in> set stepOps"
    by blast+
  show "sum_list (map shown_total
         (printSummary stepOps [] (count_steps steps Map.empty) showReplaceSteps isplan))
        = sum_list (map shown_count
            (printSummary stepOps [] (count_steps steps Map.empty) showReplaceSteps isplan))"
    by (rule summary_of_counted_steps(1) [OF len d listed])
  show "sum_list (map shown_total
           (printSummary stepOps [] (count_steps steps Map.empty) showReplaceSteps isplan))
        = int (length (filter (\<lambda>step. showReplaceSteps
                 \<or> (Op step \<noteq> OpReplaceCreate \<and> Op step \<noteq> OpReplaceDelete)) steps))"
    by (rule summary_of_counted_steps(2) [OF len d listed])
  show "\<forall>l \<in> set (printSummary stepOps [] (count_steps steps Map.empty) showReplaceSteps
                       isplan).
            \<forall>op. shown_op l = Some op \<longrightarrow>
              shown_count l = int (count_list (map Op steps) op)
              \<and> (showReplaceSteps \<or> (op \<noteq> OpReplaceCreate \<and> op \<noteq> OpReplaceDelete))"
    by (rule summary_of_counted_steps(3) [OF len d listed])
next
  assume b: "After_sequence cbs (newProgress summary, w) = Inr (prog', w')
      \<and> length cbs < 2 ^ 63 \<and> distinct stepOps
      \<and> (\<forall>cb \<in> set cbs.
            snd (snd cb) = None
            \<and> (showReplaceSteps
                \<or> (Op (fst cb) \<noteq> OpReplaceCreate \<and> Op (fst cb) \<noteq> OpReplaceDelete))
            \<longrightarrow> Op (fst cb) \<in> set stepOps)"
  let ?done = "[step. (step, state, err) \<leftarrow> cbs, err = None]"
  from b have run: "After_sequence cbs (newProgress summary, w) = Inr (prog', w')"
    and len: "length cbs < 2 ^ 63" and d: "distinct stepOps"
    and listed: "\<forall>cb \<in> set cbs.
            snd (snd cb) = None
            \<and> (showReplaceSteps
                \<or> (Op (fst cb) \<noteq> OpReplaceCreate \<and> Op (fst cb) \<noteq> OpReplaceDelete))
            \<longrightarrow> Op (fst cb) \<in> set stepOps"
    by blast+
  have ops: "Ops prog' = count_steps ?done Map.empty"
    by (rule After_sequence_new_Ops [OF run len])
  have done_eq: "?done = map fst (filter (\<lambda>cb. snd (snd cb) = None) cbs)"
    by (induction cbs) auto
  have "length ?done \<le> length cbs"
    by (simp add: done_eq)
  from this len have len_done: "length ?done < 2 ^ 63"
    by (rule le_less_trans)
  have listed_done: "\<forall>step \<in> set ?done.
            showReplaceSteps \<or> (Op step \<noteq> OpReplaceCreate \<and> Op step \<noteq> OpReplaceDelete)
            \<longrightarrow> Op step \<in> set stepOps"
    using listed by (fastforce simp: done_eq)
  have kept: "length (filter (\<lambda>step. showReplaceSteps
                 \<or> (Op step \<noteq> OpReplaceCreate \<and> Op step \<noteq> OpReplaceDelete)) ?done)
        = length (filter (\<lambda>cb. snd (snd cb) = None
                 \<and> (showReplaceSteps
                     \<or> (Op (fst cb) \<noteq> OpReplaceCreate \<and> Op (fst cb) \<noteq> OpReplaceDelete)))
               cbs)"
    by (simp add: done_eq filter_map comp_def conj_commute)
  show "sum_list (map shown_total (printSummary stepOps [] (Ops prog') showReplaceSteps isplan))
        = sum_list (map shown_count
            (printSummary stepOps [] (Ops prog') showReplaceSteps isplan))"
    unfolding ops by (rule summary_of_counted_steps(1) [OF len_done d listed_done])
  show "sum_list (map shown_total (printSummary stepOps [] (Ops prog') showReplaceSteps isplan))
        = int (length (filter (\<lambda>cb. snd (snd cb) = None
                 \<and> (showReplaceSteps
                     \<or> (Op (fst cb) \<noteq> OpReplaceCreate \<and> Op (fst cb) \<noteq> OpReplaceDelete)))
               cbs))"
    unfolding ops kept [symmetric]
    by (rule summary_of_counted_steps(2) [OF len_done d listed_done])
qed

theorem printSummary_total_is_sum_of_shown_counts_witness:
  "sum_list (map shown_total
      (printSummary StepOps_spec [] (count_steps example_steps Map.empty) False True)) = 3
   \<and> sum_list (map shown_count
      (printSummary StepOps_spec [] (count_steps example_steps Map.empty) False True)) = 3
   \<and> sum_list (map shown_total
      (printSummary StepOps_spec [] (count_steps example_steps Map.empty) True True)) = 5
   \<and> sum_list (map shown_count
      (printSummary StepOps_spec [] (count_steps example_steps Map.empty) True True)) = 5
   \<and> (\<exists>prog' w'. After_sequence example_callbacks (newProgress False, example_world)
                    = Inr (prog', w')
        \<and> sum_list (map shown_total (printSummary StepOps_spec [] (Ops prog') False False)) = 2
        \<and> sum_list (map shown_count (printSummary StepOps_spec [] (Ops prog') False False)) = 2)"
proof -
  have len: "length example_steps < 2 ^ 63"
    by (simp add: example_steps_def)
  have d: "distinct StepOps_spec"
    by (simp add: StepOps_spec_def)
  have listed: "\<forall>step \<in> set example_steps.
            s \<or> (Op step \<noteq> OpReplaceCreate \<and> Op step \<noteq> OpReplaceDelete)
            \<longrightarrow> Op step \<in> set StepOps_spec" for s
    by (simp add: example_steps_def StepOps_spec_def)
  note plan = printSummary_total_is_sum_of_shown_counts
    [where steps = example_steps and stepOps = StepOps_spec and isplan = True,
     THEN conjunct1, rule_format, OF conjI [OF len conjI [OF d listed]]]
  have kept: "length (filter (\<lambda>step. False
                 \<or> (Op step \<noteq> OpReplaceCreate \<and> Op step \<noteq> OpReplaceDelete)) example_steps) = 3"
    "length (filter (\<lambda>step. True
                 \<or> (Op step \<noteq> OpReplaceCreate \<and> Op step \<noteq> OpReplaceDelete)) example_steps) = 5"
    by (simp_all add: example_steps_def)
  from plan [where showReplaceSteps = False] kept(1)
  have 1: "sum_list (map shown_total
      (printSummary StepOps_spec [] (count_steps example_steps Map.empty) False True)) = 3
   \<and> sum_list (map shown_count
      (printSummary StepOps_spec [] (count_steps example_steps Map.empty) False True)) = 3"
    by simp
  from plan [where showReplaceSteps = True] kept(2)
  have 2: "sum_list (map shown_total
      (printSummary StepOps_spec [] (count_steps example_steps Map.empty) True True)) = 5
   \<and> sum_list (map shown_count
      (printSummary StepOps_spec [] (count_steps example_steps Map.empty) True True)) = 5"
    by simp
  have "\<forall>step n err. (step, StateUnrecognized n, Some err) \<notin> set example_callbacks"
    by (simp add: example_callbacks_def)
  then obtain prog' w'
    where run: "After_sequence example_callbacks (newProgress False, example_world)
                  = Inr (prog', w')"
    using After_sequence_returns [of example_callbacks "(newProgress False, example_world)"]
    by fastforce
  have len_cbs: "length example_callbacks < 2 ^ 63"
    by (simp add: example_callbacks_def)
  have listed_cbs: "\<forall>cb \<in> set example_callbacks.
            snd (snd cb) = None
            \<and> (False \<or> (Op (fst cb) \<noteq> OpReplaceCreate \<and> Op (fst cb) \<noteq> OpReplaceDelete))
            \<longrightarrow> Op (fst cb) \<in> set StepOps_spec"
    by (simp add: example_callbacks_def StepOps_spec_def)
  have completed: "length (filter (\<lambda>cb. snd (snd cb) = None
                 \<and> (False \<or> (Op (fst cb) \<noteq> OpReplaceCreate \<and> Op (fst cb) \<noteq> OpReplaceDelete)))
               example_callbacks) = 2"
    by (simp add: example_callbacks_def)
  from printSummary_total_is_sum_of_shown_counts
    [where cbs = example_callbacks and summary = False and w = example_world
       and prog' = prog' and w' = w' and stepOps = StepOps_spec and showReplaceSteps = False
       and isplan = False,
     THEN conjunct2, rule_format, OF conjI [OF run conjI [OF len_cbs conjI [OF d listed_cbs]]]]
    completed
  have "sum_list (map shown_total (printSummary StepOps_spec [] (Ops prog') False False)) = 2
        \<and> sum_list (map shown_count (printSummary StepOps_spec [] (Ops prog') False False)) = 2"
    by simp
  with run have 3: "\<exists>prog' w'. After_sequence example_callbacks (newProgress False, example_world)
                    = Inr (prog', w')
        \<and> sum_list (map shown_total (printSummary StepOps_spec [] (Ops prog') False False)) = 2
        \<and> sum_list (map shown_count (printSummary StepOps_spec [] (Ops prog') False False)) = 2"
    by blast
  from 1 2 3 show ?thesis by (intro conjI) (erule conjunct1 conjunct2)+
qed

section \<open>Evaluating the example instances\<close>

lemma example_path [simp]:
  "resolved_path example_lumi example_env [] = ''.lumi/env/prod.json''"
  "EnvPath example_lumi (Env.Name example_env) = ''.lumi/env/prod.json''"
  "EnvPath example_lumi ''prod'' = ''.lumi/env/prod.json''"
  "EnvPath example_lumi ''dev'' = ''.lumi/env/dev.json''"
  by (simp_all add: resolved_path_def example_lumi_def example_env_def example_Ext_def)

lemma example_Detect [simp]:
  "Detect example_lumi ''.lumi/env/prod.json'' = (Some example_Marshaler, ''.json'')"
  "Detect example_lumi ''.lumi/env/dev.json'' = (Some example_Marshaler, ''.json'')"
  "Detect example_lumi ''out.json'' = (Some example_Marshaler, ''.json'')"
  "Detect example_lumi ''out.xml'' = (None, ''.xml'')"
  by (simp_all add: example_lumi_def example_Ext_def)

lemma example_Marshal [simp]:
  "Marshal example_Marshaler (SerializeEnvfile example_lumi example_env snap [])
     = Inr (''prod'' @ [CHR 0x0A] @ (case snap of None \<Rightarrow> [] | Some s \<Rightarrow> s))"
  by (simp add: example_lumi_def example_env_def example_Marshaler_def)

lemma example_Dir_path [simp]:
  "filepath_Dir example_lumi ''.lumi/env/prod.json'' = ''.lumi/env''"
  by (simp add: example_lumi_def example_Dir_def)

lemma example_os_simps [simp]:
  "os_Rename example_os src dst fs =
     (case fs src of
        None \<Rightarrow> (Some (OSError True (''rename '' @ src)), fs)
      | Some c \<Rightarrow> (None, (fs(src := None))(dst \<mapsto> c)))"
  "os_Stat example_os p fs =
     (case fs p of None \<Rightarrow> Some (OSError True (''stat '' @ p)) | Some c \<Rightarrow> None)"
  "os_MkdirAll example_os d fs =
     (case fs d of None \<Rightarrow> (None, fs) | Some c \<Rightarrow> (Some (OSError False (''mkdir '' @ d)), fs))"
  "ioutil_WriteFile example_os p b fs = (None, fs(p \<mapsto> b))"
  "ioutil_ReadFile example_os p fs =
     (case fs p of None \<Rightarrow> Inl (OSError True (''open '' @ p)) | Some c \<Rightarrow> Inr c)"
  by (simp_all add: example_os_def)

lemma example_os_rename_keeps_content: "rename_keeps_content example_os"
  by (auto simp: rename_keeps_content_def split: option.splits)

lemma example_plan [simp]:
  "plan (example_apply_env steps) info opts w
     = (Some \<lparr>Info = info, New = Some ''+++'', Plan = steps\<rparr>, w)"
  "printPrelude (example_apply_env steps) result opts = []"
  "Plan_Empty (example_apply_env steps) pl = (pl = [])"
  "Plan_Apply (example_apply_env steps) pl pw = example_Plan_Apply pl [] pw"
  by (simp_all add: example_apply_env_def)

section \<open>Properties of checkpoint persistence\<close>

lemma fsys_Errorf [simp]: "fsys (Errorf d w) = fsys w"
  by (simp add: Errorf_def)

lemma stdout_Errorf [simp]: "stdout (Errorf d w) = stdout w"
  by (simp add: Errorf_def)

lemma diags_Errorf [simp]: "diags (Errorf d w) = diags w @ [d]"
  by (simp add: Errorf_def)

lemma fsys_Printf [simp]: "fsys (Printf b w) = fsys w"
  by (simp add: Printf_def)

lemma diags_Printf [simp]: "diags (Printf b w) = diags w"
  by (simp add: Printf_def)

lemma stdout_Printf [simp]: "stdout (Printf b w) = stdout w @ b"
  by (simp add: Printf_def)

lemma saveEnv_Detect_None:
  assumes "Detect lib (if file0 = [] then EnvPath lib (Env.Name e) else file0) = (None, ext)"
  shows "saveEnv os lib (Some e) snap file0 existok w
           = Inr (False, Errorf (ErrorIllegalMarkupExtension ext) w)"
  using assms by (simp add: saveEnv_def split del: if_split)

lemma saveEnv_Marshal_error:
  assumes "Detect lib (if file0 = [] then EnvPath lib (Env.Name e) else file0) = (Some m, ext)"
      and "Marshal m (SerializeEnvfile lib e snap []) = Inl err"
  shows "saveEnv os lib (Some e) snap file0 existok w = Inr (False, Errorf (ErrorIO err) w)"
  using assms by (simp add: saveEnv_def split del: if_split)

lemma saveEnv_validated:
  assumes "Detect lib (if file0 = [] then EnvPath lib (Env.Name e) else file0) = (Some m, ext)"
      and "Marshal m (SerializeEnvfile lib e snap []) = Inr b"
  shows "saveEnv os lib (Some e) snap file0 existok w =
     (if \<not> existok \<and> os_Stat os (resolved_path lib e file0) (fsys w) = None
      then Inr (False,
             Errorf (ErrorIO (errors_New
               (''file '' @ [CHR 0x27] @ resolved_path lib e file0 @ [CHR 0x27]
                @ '' already exists''))) w)
      else
       (case backupEnv os (resolved_path lib e file0) w of
          Inl f \<Rightarrow> Inl f
        | Inr w1 \<Rightarrow>
           (case os_MkdirAll os (filepath_Dir lib (resolved_path lib e file0)) (fsys w1) of
              (Some err, fs2) \<Rightarrow> Inr (False, Errorf (ErrorIO err) (w1\<lparr>fsys := fs2\<rparr>))
            | (None, fs2) \<Rightarrow>
               (case ioutil_WriteFile os (resolved_path lib e file0) b fs2 of
                  (Some err, fs3) \<Rightarrow> Inr (False, Errorf (ErrorIO err) (w1\<lparr>fsys := fs3\<rparr>))
                | (None, fs3) \<Rightarrow> Inr (True, w1\<lparr>fsys := fs3\<rparr>)))))"
  by (simp only: saveEnv_def resolved_path_def Let_def assms option.case prod.case sum.case snd_conv)

lemma backupEnv_renames:
  "file \<noteq> [] \<Longrightarrow>
     backupEnv os file w = Inr (w\<lparr>fsys := snd (os_Rename os file (file @ ''.bak'') (fsys w))\<rparr>)"
  by (simp add: backupEnv_def)

lemma backupEnv_empty: "backupEnv os [] w = Inl (Panic ''file'')"
  by (simp add: backupEnv_def)

lemma world_eq_iff:
  "(w' = w\<lparr>fsys := fs\<rparr>) = (fsys w' = fs \<and> diags w' = diags w \<and> stdout w' = stdout w)"
  for w w' :: "'fs world"
  by (cases w; cases w') auto

lemma saveEnv_validated_success:
  assumes "Detect lib (if file0 = [] then EnvPath lib (Env.Name e) else file0) = (Some m, ext)"
      and "Marshal m (SerializeEnvfile lib e snap []) = Inr b"
  shows "(saveEnv os lib (Some e) snap file0 existok w = Inr (True, w')) =
     ((existok \<or> os_Stat os (resolved_path lib e file0) (fsys w) \<noteq> None)
      \<and> resolved_path lib e file0 \<noteq> []
      \<and> (\<exists>fs2. os_MkdirAll os (filepath_Dir lib (resolved_path lib e file0))
                  (snd (os_Rename os (resolved_path lib e file0)
                          (resolved_path lib e file0 @ ''.bak'') (fsys w))) = (None, fs2)
               \<and> ioutil_WriteFile os (resolved_path lib e file0) b fs2 = (None, fsys w'))
      \<and> diags w' = diags w \<and> stdout w' = stdout w)"
proof (cases "resolved_path lib e file0 = []")
  case True
  then show ?thesis
    by (simp add: saveEnv_validated [OF assms] backupEnv_empty)
next
  case False
  obtain e2 fs2 where mk: "os_MkdirAll os (filepath_Dir lib (resolved_path lib e file0))
                  (snd (os_Rename os (resolved_path lib e file0)
                          (resolved_path lib e file0 @ ''.bak'') (fsys w))) = (e2, fs2)"
    by (cases "os_MkdirAll os (filepath_Dir lib (resolved_path lib e file0))
                  (snd (os_Rename os (resolved_path lib e file0)
                          (resolved_path lib e file0 @ ''.bak'') (fsys w)))")
  obtain e3 fs3 where wr: "ioutil_WriteFile os (resolved_path lib e file0) b fs2 = (e3, fs3)"
    by (cases "ioutil_WriteFile os (resolved_path lib e file0) b fs2")
  from False mk wr show ?thesis
    by (cases e2; cases e3)
       (auto simp: saveEnv_validated [OF assms] backupEnv_renames world_eq_iff)
qed

lemma deleteEnv_renames:
  assumes "EnvPath lib (Env.Name e) \<noteq> []"
  shows "deleteEnv os lib (Some e) w =
           Inr (w\<lparr>fsys := snd (os_Rename os (EnvPath lib (Env.Name e))
                                 (EnvPath lib (Env.Name e) @ ''.bak'') (fsys w))\<rparr>)"
  using assms by (simp add: deleteEnv_def backupEnv_renames)

text \<open>
  Claim C5. \<open>saveEnv\<close> validates and encodes before it touches the destination. When the
  format cannot be detected it returns false with the unsupported-format diagnostic, and
  when marshalling fails it returns false with the marshalling error; in both cases the
  world it returns is the one it was given with that diagnostic added, so the file system
  is untouched, whatever the operating system does on a rename, a directory creation or a
  write: none of them is called.
\<close>

theorem saveEnv_fails_before_touching_destination:
  "(Detect lib (if file0 = [] then EnvPath lib (Env.Name e) else file0) = (None, ext) \<longrightarrow>
      saveEnv os lib (Some e) snap file0 existok w
        = Inr (False, Errorf (ErrorIllegalMarkupExtension ext) w))
   \<and> (Detect lib (if file0 = [] then EnvPath lib (Env.Name e) else file0) = (Some m, ext)
        \<and> Marshal m (SerializeEnvfile lib e snap []) = Inl err \<longrightarrow>
      saveEnv os lib (Some e) snap file0 existok w = Inr (False, Errorf (ErrorIO err) w))
   \<and> fsys (Errorf d w) = fsys w
   \<and> stdout (Errorf d w) = stdout w
   \<and> diags (Errorf d w) = diags w @ [d]"
  by (simp add: saveEnv_Detect_None saveEnv_Marshal_error split del: if_split)

theorem saveEnv_fails_before_touching_destination_witness:
  "saveEnv example_os example_lumi (Some example_env) (Some ''vpc-2'') ''out.xml'' True
       example_files
     = Inr (False, example_files\<lparr>diags := [ErrorIllegalMarkupExtension ''.xml'']\<rparr>)
   \<and> saveEnv example_os example_lumi
        (Some \<lparr>Env.Name = ''pr'' @ [CHR 0x0A] @ ''od'', Config = []\<rparr>) None
        ''out.json'' True example_files
     = Inr (False, example_files\<lparr>diags := [ErrorIO (errors_New ''line break in name'')]\<rparr>)"
proof -
  let ?e = "\<lparr>Env.Name = ''pr'' @ [CHR 0x0A] @ ''od'', Config = []\<rparr>"
  have detect1: "Detect example_lumi
        (if ''out.xml'' = [] then EnvPath example_lumi (Env.Name example_env) else ''out.xml'')
      = (None, ''.xml'')"
    by simp
  have detect2a: "Detect example_lumi
        (if ''out.json'' = [] then EnvPath example_lumi (Env.Name ?e) else ''out.json'')
      = (Some example_Marshaler, ''.json'')"
    by simp
  have detect2b: "Marshal example_Marshaler (SerializeEnvfile example_lumi ?e None [])
        = Inl (errors_New ''line break in name'')"
    by (simp add: example_lumi_def example_Marshaler_def)
  note detect2 = conjI [OF detect2a detect2b]
  note claim1 = saveEnv_fails_before_touching_destination
    [where lib = example_lumi and ?file0.0 = "''out.xml''" and e = example_env
       and ext = "''.xml''" and os = example_os and snap = "Some ''vpc-2''" and existok = True
       and w = example_files]
  note claim2 = saveEnv_fails_before_touching_destination
    [where lib = example_lumi and ?file0.0 = "''out.json''" and e = ?e
       and ext = "''.json''" and os = example_os and snap = None and existok = True
       and w = example_files and m = example_Marshaler
       and err = "errors_New ''line break in name''"]
  from claim1 [THEN conjunct1, rule_format, OF detect1]
  have 1: "saveEnv example_os example_lumi (Some example_env) (Some ''vpc-2'') ''out.xml'' True
       example_files
     = Inr (False, example_files\<lparr>diags := [ErrorIllegalMarkupExtension ''.xml'']\<rparr>)"
    by (simp add: Errorf_def example_files_def)
  from claim2 [THEN conjunct2, THEN conjunct1, rule_format, OF detect2]
  have 2: "saveEnv example_os example_lumi (Some ?e) None ''out.json'' True example_files
     = Inr (False, example_files\<lparr>diags := [ErrorIO (errors_New ''line break in name'')]\<rparr>)"
    by (simp add: Errorf_def example_files_def)
  from 1 2 show ?thesis by (intro conjI)
qed

text \<open>
  Claim C4. A call of \<open>saveEnv\<close> with \<open>existok\<close> false, for which \<open>os.Stat\<close> finds
  something at the resolved path, returns false and leaves the file system as it was
  given, whatever the operating system does on a rename, a directory creation or a write:
  none of them is called. When the format is detected and the envfile marshalled, the
  only effect is the diagnostic that the file already exists.
\<close>

theorem saveEnv_existing_file_is_kept:
  assumes "os_Stat os (resolved_path lib e file0) (fsys w) = None"
  shows "\<exists>w'. saveEnv os lib (Some e) snap file0 False w = Inr (False, w')
           \<and> fsys w' = fsys w \<and> stdout w' = stdout w
           \<and> (\<forall>m ext b.
                 Detect lib (if file0 = [] then EnvPath lib (Env.Name e) else file0) = (Some m, ext)
                 \<and> Marshal m (SerializeEnvfile lib e snap []) = Inr b \<longrightarrow>
                 w' = Errorf (ErrorIO (errors_New
                        (''file '' @ [CHR 0x27] @ resolved_path lib e file0 @ [CHR 0x27]
                         @ '' already exists''))) w)"
proof (cases "Detect lib (if file0 = [] then EnvPath lib (Env.Name e) else file0)")
  case (Pair mo ext)
  show ?thesis
  proof (cases mo)
    case None
    with Pair show ?thesis
      by (simp add: saveEnv_Detect_None split del: if_split)
  next
    case (Some m)
    note detect = Pair [unfolded Some]
    show ?thesis
    proof (cases "Marshal m (SerializeEnvfile lib e snap [])")
      case (Inl err)
      with detect show ?thesis
        by (simp add: saveEnv_Marshal_error split del: if_split)
    next
      case (Inr b)
      with detect assms show ?thesis
        by (simp add: saveEnv_validated split del: if_split)
    qed
  qed
qed

theorem saveEnv_existing_file_is_kept_witness:
  "saveEnv example_os example_lumi (Some example_env) None [] False example_files
     = Inr (False, example_files
              \<lparr>diags := [ErrorIO (errors_New
                 (''file '' @ [CHR 0x27] @ ''.lumi/env/prod.json'' @ [CHR 0x27]
                  @ '' already exists''))]\<rparr>)"
proof -
  have stat: "os_Stat example_os (resolved_path example_lumi example_env []) (fsys example_files)
                = None"
    by (simp add: example_files_def)
  from saveEnv_existing_file_is_kept [OF stat, where snap = None]
  show ?thesis
    by (clarsimp simp: Errorf_def example_files_def)
qed

text \<open>
  Claim C6. A save succeeds exactly when the format is detected, the envfile is
  marshalled, the existence check passes (\<open>existok\<close>, or \<open>os.Stat\<close> fails at the resolved
  path), the resolved path is not empty (the requirement of \<open>backupEnv\<close>), and then, in
  this order, \<open>os.Rename\<close> of the resolved path to the same path with \<open>.bak\<close> appended is
  called, \<open>os.MkdirAll\<close> of its directory succeeds on the file system the rename leaves,
  and \<open>ioutil.WriteFile\<close> of the marshalled bytes succeeds after that. The error the
  rename returns is no part of the condition: \<open>backupEnv\<close> ignores it, and a rename that
  fails (there is no existing file, for one) does not abort the save.
\<close>

theorem saveEnv_backs_up_then_writes:
  "(saveEnv os lib (Some e) snap file0 existok w = Inr (True, w')) =
     (\<exists>m ext b fs2.
        Detect lib (if file0 = [] then EnvPath lib (Env.Name e) else file0) = (Some m, ext)
        \<and> Marshal m (SerializeEnvfile lib e snap []) = Inr b
        \<and> (existok \<or> os_Stat os (resolved_path lib e file0) (fsys w) \<noteq> None)
        \<and> resolved_path lib e file0 \<noteq> []
        \<and> os_MkdirAll os (filepath_Dir lib (resolved_path lib e file0))
             (snd (os_Rename os (resolved_path lib e file0)
                     (resolved_path lib e file0 @ ''.bak'') (fsys w))) = (None, fs2)
        \<and> ioutil_WriteFile os (resolved_path lib e file0) b fs2 = (None, fsys w')
        \<and> diags w' = diags w \<and> stdout w' = stdout w)"
proof (cases "Detect lib (if file0 = [] then EnvPath lib (Env.Name e) else file0)")
  case (Pair mo ext)
  show ?thesis
  proof (cases mo)
    case None
    with Pair show ?thesis
      by (simp add: saveEnv_Detect_None split del: if_split)
  next
    case (Some m)
    note detect = Pair [unfolded Some]
    show ?thesis
    proof (cases "Marshal m (SerializeEnvfile lib e snap [])")
      case (Inl err)
      with detect show ?thesis
        by (simp add: saveEnv_Marshal_error split del: if_split)
    next
      case (Inr b)
      from saveEnv_validated_success [OF detect Inr, of os existok w w'] detect Inr
      show ?thesis
        by (simp split del: if_split) blast
    qed
  qed
qed

theorem saveEnv_backs_up_then_writes_witness:
  "fst (os_Rename example_os ''.lumi/env/prod.json'' ''.lumi/env/prod.json.bak''
          (fsys example_no_files)) = Some (OSError True ''rename .lumi/env/prod.json'')
   \<and> saveEnv example_os example_lumi (Some example_env) (Some ''vpc-2'') [] False
        example_no_files
       = Inr (True, example_no_files
                \<lparr>fsys := [''.lumi/env/prod.json'' \<mapsto> ''prod'' @ [CHR 0x0A] @ ''vpc-2'']\<rparr>)
   \<and> saveEnv example_os example_lumi (Some example_env) (Some ''vpc-2'') [] True example_files
       = Inr (True, example_files
                \<lparr>fsys := [''.lumi/env/prod.json.bak'' \<mapsto> ''prod'' @ [CHR 0x0A] @ ''vpc-1'',
                           ''.lumi/env/prod.json'' \<mapsto> ''prod'' @ [CHR 0x0A] @ ''vpc-2'']\<rparr>)"
proof -
  have 1: "fst (os_Rename example_os ''.lumi/env/prod.json'' ''.lumi/env/prod.json.bak''
          (fsys example_no_files)) = Some (OSError True ''rename .lumi/env/prod.json'')"
    by (simp add: example_no_files_def)
  have 2: "saveEnv example_os example_lumi (Some example_env) (Some ''vpc-2'') [] False
        example_no_files
       = Inr (True, example_no_files
                \<lparr>fsys := [''.lumi/env/prod.json'' \<mapsto> ''prod'' @ [CHR 0x0A] @ ''vpc-2'']\<rparr>)"
    by (subst saveEnv_backs_up_then_writes) (simp add: example_no_files_def)
  have 3: "saveEnv example_os example_lumi (Some example_env) (Some ''vpc-2'') [] True example_files
       = Inr (True, example_files
                \<lparr>fsys := [''.lumi/env/prod.json.bak'' \<mapsto> ''prod'' @ [CHR 0x0A] @ ''vpc-1'',
                           ''.lumi/env/prod.json'' \<mapsto> ''prod'' @ [CHR 0x0A] @ ''vpc-2'']\<rparr>)"
    by (subst saveEnv_backs_up_then_writes) (auto simp: example_files_def)
  from 1 2 3 show ?thesis by (intro conjI)
qed

text \<open>
  Claim C10. For an environment whose path is not empty (the requirement of \<open>backupEnv\<close>),
  \<open>removeEnv\<close> returns the world it was given with the file system that one \<open>os.Rename\<close>
  of the environment file to the same path with \<open>.bak\<close> appended leaves, and with the
  removal message printed; \<open>deleteEnv\<close> returns the same without the message. Nothing else
  is called on the file system: no write, no removal, no truncation. On an operating
  system whose rename keeps content, the bytes of the checkpoint are read unchanged
  afterwards, under the backup name when the rename succeeded and under the old name
  when it failed.
\<close>

theorem removeEnv_only_renames:
  assumes "EnvPath lib (Env.Name e) \<noteq> []"
  shows "removeEnv os lib (Some e) w =
           Inr (Printf [RemovedLine (Env.Name e)]
                  (w\<lparr>fsys := snd (os_Rename os (EnvPath lib (Env.Name e))
                                    (EnvPath lib (Env.Name e) @ ''.bak'') (fsys w))\<rparr>))
       \<and> deleteEnv os lib (Some e) w =
           Inr (w\<lparr>fsys := snd (os_Rename os (EnvPath lib (Env.Name e))
                                 (EnvPath lib (Env.Name e) @ ''.bak'') (fsys w))\<rparr>)
       \<and> (rename_keeps_content os \<longrightarrow>
            (\<forall>b. ioutil_ReadFile os (EnvPath lib (Env.Name e)) (fsys w) = Inr b \<longrightarrow>
               ioutil_ReadFile os
                 (if fst (os_Rename os (EnvPath lib (Env.Name e))
                            (EnvPath lib (Env.Name e) @ ''.bak'') (fsys w)) = None
                  then EnvPath lib (Env.Name e) @ ''.bak''
                  else EnvPath lib (Env.Name e))
                 (snd (os_Rename os (EnvPath lib (Env.Name e))
                         (EnvPath lib (Env.Name e) @ ''.bak'') (fsys w))) = Inr b))"
proof (intro conjI impI allI)
  let ?file = "EnvPath lib (Env.Name e)"
  show "removeEnv os lib (Some e) w =
          Inr (Printf [RemovedLine (Env.Name e)]
                 (w\<lparr>fsys := snd (os_Rename os ?file (?file @ ''.bak'') (fsys w))\<rparr>))"
    by (simp add: removeEnv_def deleteEnv_renames [OF assms])
  show "deleteEnv os lib (Some e) w =
          Inr (w\<lparr>fsys := snd (os_Rename os ?file (?file @ ''.bak'') (fsys w))\<rparr>)"
    by (rule deleteEnv_renames [OF assms])
  show "ioutil_ReadFile os
          (if fst (os_Rename os ?file (?file @ ''.bak'') (fsys w)) = None
           then ?file @ ''.bak'' else ?file)
          (snd (os_Rename os ?file (?file @ ''.bak'') (fsys w))) = Inr b"
    if "rename_keeps_content os" "ioutil_ReadFile os ?file (fsys w) = Inr b" for b
    using that unfolding rename_keeps_content_def by blast
qed

theorem removeEnv_only_renames_witness:
  "removeEnv example_os example_lumi (Some example_env) example_files
     = Inr (example_files
              \<lparr>fsys := [''.lumi/env/prod.json.bak'' \<mapsto> ''prod'' @ [CHR 0x0A] @ ''vpc-1''],
               stdout := [RemovedLine ''prod'']\<rparr>)
   \<and> ioutil_ReadFile example_os ''.lumi/env/prod.json.bak''
        [''.lumi/env/prod.json.bak'' \<mapsto> ''prod'' @ [CHR 0x0A] @ ''vpc-1'']
       = Inr (''prod'' @ [CHR 0x0A] @ ''vpc-1'')"
proof -
  have path: "EnvPath example_lumi (Env.Name example_env) \<noteq> []"
    by simp
  note claim = removeEnv_only_renames [OF path, of example_os example_files]
  from claim [THEN conjunct1]
  have 1: "removeEnv example_os example_lumi (Some example_env) example_files
     = Inr (example_files
              \<lparr>fsys := [''.lumi/env/prod.json.bak'' \<mapsto> ''prod'' @ [CHR 0x0A] @ ''vpc-1''],
               stdout := [RemovedLine ''prod'']\<rparr>)"
    by (simp add: Printf_def example_files_def example_env_def)
  have content: "ioutil_ReadFile example_os (EnvPath example_lumi (Env.Name example_env))
          (fsys example_files) = Inr (''prod'' @ [CHR 0x0A] @ ''vpc-1'')"
    by (simp add: example_files_def)
  from claim [THEN conjunct2, THEN conjunct2, rule_format,
              OF example_os_rename_keeps_content content]
  have 2: "ioutil_ReadFile example_os ''.lumi/env/prod.json.bak''
        [''.lumi/env/prod.json.bak'' \<mapsto> ''prod'' @ [CHR 0x0A] @ ''vpc-1'']
       = Inr (''prod'' @ [CHR 0x0A] @ ''vpc-1'')"
    by (simp add: example_files_def)
  from 1 2 show ?thesis by (intro conjI)
qed

text \<open>
  Claim C7. \<open>readEnv\<close> of a non-empty name returns no envfile, with one diagnostic added:
  the unsupported-format diagnostic when the format is not detected; when the file cannot
  be read, the invalid-environment-name diagnostic if \<open>os.IsNotExist\<close> holds of the error
  and the I/O diagnostic for every other error; the cannot-read-deployment diagnostic when
  unmarshalling the bytes into the typed envfile fails, when unmarshalling the same bytes
  into the generic object fails, or when the mapper rejects the generic object. When all
  of these succeed the result is built from the typed envfile alone: the generic object
  is used for validation only.
\<close>

theorem readEnv_failures:
  assumes "name \<noteq> []"
  shows
  "(Detect lib (EnvPath lib name) = (None, ext) \<longrightarrow>
      readEnv os lib name w = Inr (None, Errorf (ErrorIllegalMarkupExtension ext) w))
   \<and> (Detect lib (EnvPath lib name) = (Some m, ext) \<longrightarrow>
       (\<forall>err. ioutil_ReadFile os (EnvPath lib name) (fsys w) = Inl err \<longrightarrow>
          readEnv os lib name w =
            Inr (None, Errorf (if os_IsNotExist err then ErrorInvalidEnvName name
                               else ErrorIO err) w))
     \<and> (\<forall>b. ioutil_ReadFile os (EnvPath lib name) (fsys w) = Inr b \<longrightarrow>
          (\<forall>err. Unmarshal_Envfile m b = Inl err \<longrightarrow>
             readEnv os lib name w =
               Inr (None, Errorf (ErrorCantReadDeployment (EnvPath lib name) err) w))
        \<and> (\<forall>envfile. Unmarshal_Envfile m b = Inr envfile \<longrightarrow>
             (\<forall>err. Unmarshal_Object m b = Inl err \<longrightarrow>
                readEnv os lib name w =
                  Inr (None, Errorf (ErrorCantReadDeployment (EnvPath lib name) err) w))
           \<and> (\<forall>obj. Unmarshal_Object m b = Inr obj \<longrightarrow>
                (\<forall>err. mapper_Decode lib (delete_resources obj) = Some err \<longrightarrow>
                   readEnv os lib name w =
                     Inr (None, Errorf (ErrorCantReadDeployment (EnvPath lib name) err) w))
              \<and> (mapper_Decode lib (delete_resources obj) = None \<longrightarrow>
                   readEnv os lib name w =
                     (case DeserializeEnvfile lib envfile of
                        (None, snap) \<Rightarrow> Inl (Panic ''assertion failure'')
                      | (Some env, snap) \<Rightarrow> Inr (Some (envfile, env, snap), w)))))))"
  using assms by (simp add: readEnv_def)

theorem readEnv_failures_witness:
  "readEnv example_os example_lumi ''dev'' example_files
     = Inr (None, example_files\<lparr>diags := [ErrorInvalidEnvName ''dev'']\<rparr>)
   \<and> readEnv example_os example_lumi ''prod'' example_files
     = Inr (Some ((example_env, Some ''vpc-1''), example_env, Some ''vpc-1''), example_files)"
proof -
  have n: "''dev'' \<noteq> []" "''prod'' \<noteq> []" by simp_all
  have detect: "Detect example_lumi (EnvPath example_lumi ''dev'') = (Some example_Marshaler, ''.json'')"
    "Detect example_lumi (EnvPath example_lumi ''prod'') = (Some example_Marshaler, ''.json'')"
    by simp_all
  have missing: "ioutil_ReadFile example_os (EnvPath example_lumi ''dev'') (fsys example_files)
                   = Inl (OSError True ''open .lumi/env/dev.json'')"
    by (simp add: example_files_def)
  note dev = readEnv_failures [OF n(1), where lib = example_lumi and os = example_os
           and w = example_files and m = example_Marshaler and ext = "''.json''",
         THEN conjunct2, rule_format, OF detect(1)]
  from dev [THEN conjunct1, rule_format, OF missing]
  have 1: "readEnv example_os example_lumi ''dev'' example_files
     = Inr (None, example_files\<lparr>diags := [ErrorInvalidEnvName ''dev'']\<rparr>)"
    by (simp add: Errorf_def example_files_def)
  have present: "ioutil_ReadFile example_os (EnvPath example_lumi ''prod'') (fsys example_files)
                   = Inr (''prod'' @ [CHR 0x0A] @ ''vpc-1'')"
    by (simp add: example_files_def)
  have typed: "Unmarshal_Envfile example_Marshaler (''prod'' @ [CHR 0x0A] @ ''vpc-1'')
                 = Inr (example_env, Some ''vpc-1'')"
    by (simp add: example_Marshaler_def example_env_def)
  have generic: "Unmarshal_Object example_Marshaler (''prod'' @ [CHR 0x0A] @ ''vpc-1'')
                 = Inr [(''name'', JString ''prod''),
                        (''latest'', JObject [(''resources'', JString ''vpc-1'')])]"
    by (simp add: example_Marshaler_def)
  have valid: "mapper_Decode example_lumi
                 (delete_resources [(''name'', JString ''prod''),
                        (''latest'', JObject [(''resources'', JString ''vpc-1'')])]) = None"
    by (simp add: example_lumi_def delete_resources_def)
  note prod = readEnv_failures [OF n(2), where lib = example_lumi and os = example_os
           and w = example_files and m = example_Marshaler and ext = "''.json''",
         THEN conjunct2, rule_format, OF detect(2)]
  note prod_read = prod [THEN conjunct2, rule_format, OF present]
  note prod_typed = prod_read [THEN conjunct2, rule_format, OF typed]
  note prod_generic = prod_typed [THEN conjunct2, rule_format, OF generic]
  from prod_generic [THEN conjunct2, rule_format, OF valid]
  have 2: "readEnv example_os example_lumi ''prod'' example_files
     = Inr (Some ((example_env, Some ''vpc-1''), example_env, Some ''vpc-1''), example_files)"
    by (simp add: example_lumi_def)
  from 1 2 show ?thesis by (intro conjI)
qed

section \<open>Properties of \<open>apply\<close>\<close>

lemma example_failing_run:
  "example_Plan_Apply example_callbacks []
     (newProgress False, Printf [DeployingHeader []] example_files)
   = Inr (Some ''+'', Some (errors_New ''throttled''),
          \<lparr>Steps = 1, Ops = [OpCreate \<mapsto> 1], MaybeCorrupt = False, Summary = False\<rparr>,
          example_files
            \<lparr>diags := [ErrorPlanApplyFailed (errors_New ''throttled'')],
             stdout := [DeployingHeader [],
                        StepFailedLine 2 OpUpdate
                          ''provider successfully recovered from this failure'']\<rparr>)"
  by (simp add: example_callbacks_def After_def newProgress_def counts_index_def Errorf_def
        Printf_def example_files_def)

lemma example_successful_run:
  "example_Plan_Apply [(\<lparr>Op = OpCreate\<rparr>, StateOK, None)] []
     (newProgress False, Printf [DeployingHeader []] example_files)
   = Inr (Some ''+'', None,
          \<lparr>Steps = 1, Ops = [OpCreate \<mapsto> 1], MaybeCorrupt = False, Summary = False\<rparr>,
          example_files\<lparr>stdout := [DeployingHeader []]\<rparr>)"
  by (simp add: After_def newProgress_def counts_index_def Printf_def example_files_def)

lemma example_save_checkpoint:
  assumes "fsys w = fsys example_files"
  shows "saveEnv example_os example_lumi (Some example_env) (Some ''+'') [] True w
           = Inr (True, w\<lparr>fsys := [''.lumi/env/prod.json.bak'' \<mapsto> ''prod'' @ [CHR 0x0A] @ ''vpc-1'',
                                   ''.lumi/env/prod.json'' \<mapsto> ''prod'' @ [CHR 0x0A] @ ''+'']\<rparr>)"
  by (subst saveEnv_validated_success [where m = example_Marshaler and ext = "''.json''"
         and b = "''prod'' @ [CHR 0x0A] @ ''+''"])
     (auto simp: assms example_files_def)

text \<open>
  Claim C3. In an apply that is not a dry run, whose plan is not nil and whose
  \<open>Plan.Apply\<close> returns a checkpoint and an error: whether the error is nil or not,
  \<open>apply\<close> hands that checkpoint to \<open>saveEnv\<close>, with the environment, the output option
  and \<open>existok\<close> true, on the world \<open>Plan.Apply\<close> leaves, and what it returns is what
  \<open>saveEnv\<close> returns, with the summary printed after it. When the error is not nil, the
  assertion of \<open>apply\<close> that a diagnostic was emitted is taken to hold; \<open>apply\<close> panics at
  the assertion otherwise.
\<close>

theorem apply_saves_checkpoint:
  assumes "plan ae info opts w = (Some result, w1)"
      and "\<not> DryRun opts"
      and "Plan_Apply ae (Plan result)
             (newProgress (applyOptions.Summary opts),
              snd (checkEmpty ae (Plan result)
                     (Printf [DeployingHeader (printPrelude ae result opts)] w1)))
           = Inr (checkpoint, err, progress', w4)"
      and "err \<noteq> None \<longrightarrow> \<not> Diag_Success w4"
  shows "\<exists>summary.
           apply' os lib ae info opts w =
             (case saveEnv os lib (Env (Info result)) checkpoint (Output opts) True w4 of
                Inl f \<Rightarrow> Inl f
              | Inr (ok, w5) \<Rightarrow> Inr (Printf summary w5))"
proof -
  obtain empty w3 where ce: "checkEmpty ae (Plan result)
                     (Printf [DeployingHeader (printPrelude ae result opts)] w1) = (empty, w3)"
    by (cases "checkEmpty ae (Plan result)
                     (Printf [DeployingHeader (printPrelude ae result opts)] w1)")
  with assms(3) have pa: "Plan_Apply ae (Plan result) (newProgress (applyOptions.Summary opts), w3)
           = Inr (checkpoint, err, progress', w4)"
    by simp
  from assms(4) have noassert: "\<not> (err \<noteq> None \<and> Diag_Success w4)"
    by blast
  show ?thesis
    unfolding apply'_def
    by (simp only: assms(1) assms(2) ce pa noassert Let_def prod.case option.case sum.case
          if_False) blast
qed

theorem apply_saves_checkpoint_witness:
  "(\<exists>w'. apply' example_os example_lumi (example_apply_env example_callbacks) example_info
            example_opts example_files = Inr w'
        \<and> fsys w' = [''.lumi/env/prod.json.bak'' \<mapsto> ''prod'' @ [CHR 0x0A] @ ''vpc-1'',
                      ''.lumi/env/prod.json'' \<mapsto> ''prod'' @ [CHR 0x0A] @ ''+'']
        \<and> diags w' = [ErrorPlanApplyFailed (errors_New ''throttled'')])
   \<and> (\<exists>w'. apply' example_os example_lumi
              (example_apply_env [(\<lparr>Op = OpCreate\<rparr>, StateOK, None)]) example_info
              example_opts example_files = Inr w'
        \<and> fsys w' = [''.lumi/env/prod.json.bak'' \<mapsto> ''prod'' @ [CHR 0x0A] @ ''vpc-1'',
                      ''.lumi/env/prod.json'' \<mapsto> ''prod'' @ [CHR 0x0A] @ ''+'']
        \<and> diags w' = [])"
proof -
  let ?fs = "[''.lumi/env/prod.json.bak'' \<mapsto> ''prod'' @ [CHR 0x0A] @ ''vpc-1'',
              ''.lumi/env/prod.json'' \<mapsto> ''prod'' @ [CHR 0x0A] @ ''+'']"
  let ?ok = "[(\<lparr>Op = OpCreate\<rparr>, StateOK, None)] :: (Step \<times> State \<times> error option) list"
  let ?w4 = "example_files
            \<lparr>diags := [ErrorPlanApplyFailed (errors_New ''throttled'')],
             stdout := [DeployingHeader [],
                        StepFailedLine 2 OpUpdate
                          ''provider successfully recovered from this failure'']\<rparr>"
  let ?w4' = "example_files\<lparr>stdout := [DeployingHeader []]\<rparr>"
  have dry: "\<not> DryRun example_opts"
    by (simp add: example_opts_def)
  have nonempty: "example_callbacks \<noteq> []" "?ok \<noteq> []"
    by (simp_all add: example_callbacks_def)
  have run1: "Plan_Apply (example_apply_env example_callbacks)
             (Plan \<lparr>Info = example_info, New = Some ''+++'', Plan = example_callbacks\<rparr>)
             (newProgress (applyOptions.Summary example_opts),
              snd (checkEmpty (example_apply_env example_callbacks)
                     (Plan \<lparr>Info = example_info, New = Some ''+++'', Plan = example_callbacks\<rparr>)
                     (Printf [DeployingHeader (printPrelude (example_apply_env example_callbacks)
                        \<lparr>Info = example_info, New = Some ''+++'', Plan = example_callbacks\<rparr>
                        example_opts)] example_files)))
           = Inr (Some ''+'', Some (errors_New ''throttled''),
                  \<lparr>Steps = 1, Ops = [OpCreate \<mapsto> 1], MaybeCorrupt = False, Summary = False\<rparr>,
                  ?w4)"
    using example_failing_run nonempty(1) by (simp add: checkEmpty_def example_opts_def)
  have run2: "Plan_Apply (example_apply_env ?ok)
             (Plan \<lparr>Info = example_info, New = Some ''+++'', Plan = ?ok\<rparr>)
             (newProgress (applyOptions.Summary example_opts),
              snd (checkEmpty (example_apply_env ?ok)
                     (Plan \<lparr>Info = example_info, New = Some ''+++'', Plan = ?ok\<rparr>)
                     (Printf [DeployingHeader (printPrelude (example_apply_env ?ok)
                        \<lparr>Info = example_info, New = Some ''+++'', Plan = ?ok\<rparr>
                        example_opts)] example_files)))
           = Inr (Some ''+'', None,
                  \<lparr>Steps = 1, Ops = [OpCreate \<mapsto> 1], MaybeCorrupt = False, Summary = False\<rparr>,
                  ?w4')"
    using example_successful_run by (simp add: checkEmpty_def example_opts_def)
  have assert1: "Some (errors_New ''throttled'') \<noteq> None \<longrightarrow> \<not> Diag_Success ?w4"
    by (simp add: Diag_Success_def example_files_def)
  have assert2: "(None :: error option) \<noteq> None \<longrightarrow> \<not> Diag_Success ?w4'"
    by simp
  have nodiags: "diags example_files = []"
    by (simp add: example_files_def)
  have save1: "saveEnv example_os example_lumi (Some example_env) (Some ''+'') [] True ?w4
                 = Inr (True, ?w4\<lparr>fsys := ?fs\<rparr>)"
    by (rule example_save_checkpoint) simp
  have save2: "saveEnv example_os example_lumi (Some example_env) (Some ''+'') [] True ?w4'
                 = Inr (True, ?w4'\<lparr>fsys := ?fs\<rparr>)"
    by (rule example_save_checkpoint) simp
  from apply_saves_checkpoint
         [of "example_apply_env example_callbacks" example_info example_opts example_files,
          OF example_plan(1) dry run1 assert1, of example_os example_lumi]
  have 1: "\<exists>w'. apply' example_os example_lumi (example_apply_env example_callbacks) example_info
            example_opts example_files = Inr w'
        \<and> fsys w' = ?fs
        \<and> diags w' = [ErrorPlanApplyFailed (errors_New ''throttled'')]"
    by (auto simp: save1 example_info_def example_opts_def)
  from apply_saves_checkpoint
         [of "example_apply_env ?ok" example_info example_opts example_files,
          OF example_plan(1) dry run2 assert2, of example_os example_lumi]
  have 2: "\<exists>w'. apply' example_os example_lumi (example_apply_env ?ok) example_info
            example_opts example_files = Inr w'
        \<and> fsys w' = ?fs
        \<and> diags w' = []"
    by (auto simp: save2 example_info_def example_opts_def nodiags)
  from 1 2 show ?thesis by (intro conjI)
qed

end
